theory Spec2Isabelle
  imports Main "HOL-Library.Multiset"
begin

section \<open>Data model of \<open>src/extension.js\<close>\<close>

text \<open>
  The extension keeps two arrays on one \<open>TaskTimerProvider\<close> object: \<open>this.tasks\<close>
  and \<open>this.timers\<close>. A task is \<open>{description, completed}\<close>. A persisted timer is
  \<open>{label, endTime}\<close>; an in-memory timer carries in addition the handle that
  \<open>setInterval\<close> returned. Timestamps are the milliseconds of \<open>Date.now()\<close>, taken
  as integers; the section on numbers says in which range this is the source's arithmetic.
  One handler runs to completion in one turn of the event loop; every
  \<open>Date.now()\<close> of that turn reads the parameter \<open>now\<close>.
\<close>

type_synonym handle = nat

record task =
  description :: string
  completed :: bool

record stored_timer =
  label :: string
  endTime :: int

record timer = stored_timer +
  timerInterval :: handle

text \<open>
  The two closures handed to \<open>setInterval\<close>. The one of \<open>startTimer\<close> captures the
  (deduplicated) \<open>label\<close> and \<open>endTime\<close>; the one of \<open>restoreTimers\<close> captures
  the stored \<open>timer\<close> object. Both capture their own handle, which is the key under which
  the callback is registered.
\<close>

datatype callback =
    StartedTick string int
  | RestoredTick stored_timer

text \<open>What the program shows to the user or posts to the panel, in order.\<close>

datatype host_call =
    Notification string string
  | InformationMessage string
  | ErrorMessage string
  | PostMessage "task list" "(string \<times> string) list"

text \<open>
  The provider object together with the parts of the host it talks to: the two
  \<open>globalState\<close> keys (\<open>None\<close> is an absent key), the table of registered interval
  callbacks with the next fresh handle, and the log of outputs.
\<close>

record state =
  timers :: "timer list"
  tasks :: "task list"
  webviewView :: bool
  timerStatusBarText :: string
  taskStatusBarText :: string
  activeTimersKey :: "stored_timer list option"
  tasksKey :: "task list option"
  intervals :: "(handle \<times> callback) list"
  nextHandle :: handle
  outputs :: "host_call list"

section \<open>Host primitives\<close>

definition setInterval :: "callback \<Rightarrow> state \<Rightarrow> state" where
  "setInterval cb s =
     s\<lparr>intervals := intervals s @ [(nextHandle s, cb)], nextHandle := Suc (nextHandle s)\<rparr>"

definition clearInterval :: "handle \<Rightarrow> state \<Rightarrow> state" where
  "clearInterval h s = s\<lparr>intervals := filter (\<lambda>p. fst p \<noteq> h) (intervals s)\<rparr>"

definition emit :: "host_call \<Rightarrow> state \<Rightarrow> state" where
  "emit out s = s\<lparr>outputs := outputs s @ [out]\<rparr>"

section \<open>Numbers and strings of the source language\<close>

text \<open>
  The source computes with doubles. On timestamps that are safe integers (from 0 to
  \<open>Number.MAX_SAFE_INTEGER\<close>, which is \<open>2^53 - 1\<close>) the operations it uses here
  (sum, difference, \<open>Math.floor\<close> of a quotient by 60000 or 1000, \<open>%\<close>) are exact,
  and \<open>toString\<close> prints plain decimal digits. The definitions of this section are
  that exact arithmetic on \<open>int\<close>. Beyond the range the source's values are rounded,
  infinite or \<open>NaN\<close> (a run of 309 nines parses to \<open>Infinity\<close>, and numbers from
  \<open>10^21\<close> on print with an exponent); the definitions do not describe those values.
  Strings are the UTF-8 bytes of the source's strings.
\<close>

definition MAX_SAFE_INTEGER :: int where
  "MAX_SAFE_INTEGER = 9007199254740991"

definition safeTime :: "int \<Rightarrow> bool" where
  "safeTime n = (0 \<le> n \<and> n \<le> MAX_SAFE_INTEGER)"

text \<open>\<open>Number.prototype.toString\<close> on an integer.\<close>

definition digitChar :: "nat \<Rightarrow> char" where
  "digitChar d = ''0123456789'' ! d"

function showNat :: "nat \<Rightarrow> string" where
  "showNat n = (if n < 10 then [digitChar n] else showNat (n div 10) @ [digitChar (n mod 10)])"
  by pat_completeness auto
termination
  by (relation "measure id") auto

declare showNat.simps [simp del]

definition showInt :: "int \<Rightarrow> string" where
  "showInt i = (if i < 0 then CHR ''-'' # showNat (nat (- i)) else showNat (nat i))"

text \<open>\<open>String.prototype.padStart\<close> with a one-character filler.\<close>

definition padStart :: "nat \<Rightarrow> char \<Rightarrow> string \<Rightarrow> string" where
  "padStart n c str = replicate (n - length str) c @ str"

text \<open>The remainder operator \<open>%\<close>: the result has the sign of the dividend.\<close>

definition jsRem :: "int \<Rightarrow> int \<Rightarrow> int" where
  "jsRem a b = sgn a * (\<bar>a\<bar> mod \<bar>b\<bar>)"

text \<open>
  \<open>parseInt\<close> without a radix: leading white space, an optional sign, an optional
  \<open>0x\<close> prefix, then the longest run of digits; \<open>None\<close> is \<open>NaN\<close>.

  The white space it skips is every \<open>WhiteSpace\<close> and \<open>LineTerminator\<close> code point:
  tab, line feed, vertical tab, form feed, carriage return, space, U+00A0, U+1680,
  U+2000 to U+200A, U+2028, U+2029, U+202F, U+205F, U+3000 and U+FEFF.
  \<open>whiteSpaceWidth\<close> is the number of bytes of such a character at the head of a
  string, 0 when there is none.
\<close>

definition whiteSpaceWidth :: "string \<Rightarrow> nat" where
  "whiteSpaceWidth str =
     (if take 1 str \<in> set [[CHR 0x09], [CHR 0x0A], [CHR 0x0B], [CHR 0x0C], [CHR 0x0D], [CHR 0x20]]
      then 1
      else if take 2 str = [CHR 0xC2, CHR 0xA0] then 2
      else if take 3 str \<in> set
           [[CHR 0xE1, CHR 0x9A, CHR 0x80],
            [CHR 0xE2, CHR 0x80, CHR 0x80], [CHR 0xE2, CHR 0x80, CHR 0x81],
            [CHR 0xE2, CHR 0x80, CHR 0x82], [CHR 0xE2, CHR 0x80, CHR 0x83],
            [CHR 0xE2, CHR 0x80, CHR 0x84], [CHR 0xE2, CHR 0x80, CHR 0x85],
            [CHR 0xE2, CHR 0x80, CHR 0x86], [CHR 0xE2, CHR 0x80, CHR 0x87],
            [CHR 0xE2, CHR 0x80, CHR 0x88], [CHR 0xE2, CHR 0x80, CHR 0x89],
            [CHR 0xE2, CHR 0x80, CHR 0x8A],
            [CHR 0xE2, CHR 0x80, CHR 0xA8], [CHR 0xE2, CHR 0x80, CHR 0xA9],
            [CHR 0xE2, CHR 0x80, CHR 0xAF], [CHR 0xE2, CHR 0x81, CHR 0x9F],
            [CHR 0xE3, CHR 0x80, CHR 0x80], [CHR 0xEF, CHR 0xBB, CHR 0xBF]]
      then 3
      else 0)"

function skipWhiteSpace :: "string \<Rightarrow> string" where
  "skipWhiteSpace str =
     (if whiteSpaceWidth str = 0 then str else skipWhiteSpace (drop (whiteSpaceWidth str) str))"
  by pat_completeness auto
termination
proof (relation "measure length")
  show "wf (measure (length :: string \<Rightarrow> nat))" by simp
next
  fix str :: string
  assume w: "whiteSpaceWidth str \<noteq> 0"
  have "str \<noteq> []"
  proof
    assume "str = []"
    then have "whiteSpaceWidth str = 0" by (simp add: whiteSpaceWidth_def)
    with w show False by simp
  qed
  with w show "(drop (whiteSpaceWidth str) str, str) \<in> measure length" by simp
qed

declare skipWhiteSpace.simps [simp del]

definition digitValue :: "char \<Rightarrow> nat option" where
  "digitValue c =
     (let n = (of_char c :: nat) in
      if 48 \<le> n \<and> n \<le> 57 then Some (n - 48)
      else if 97 \<le> n \<and> n \<le> 122 then Some (n - 87)
      else if 65 \<le> n \<and> n \<le> 90 then Some (n - 55)
      else None)"

definition isDigitOf :: "nat \<Rightarrow> char \<Rightarrow> bool" where
  "isDigitOf radix c = (case digitValue c of Some d \<Rightarrow> d < radix | None \<Rightarrow> False)"

definition digitsValue :: "nat \<Rightarrow> string \<Rightarrow> nat" where
  "digitsValue radix ds = foldl (\<lambda>acc c. acc * radix + (case digitValue c of Some d \<Rightarrow> d | None \<Rightarrow> 0)) 0 ds"

definition parseInt :: "string \<Rightarrow> int option" where
  "parseInt str =
     (let s1 = skipWhiteSpace str;
          negative = (take 1 s1 = ''-'');
          s2 = (if take 1 s1 = ''-'' \<or> take 1 s1 = ''+'' then drop 1 s1 else s1);
          hex = (take 2 s2 = ''0x'' \<or> take 2 s2 = ''0X'');
          radix = (if hex then 16 else 10);
          s3 = (if hex then drop 2 s2 else s2);
          ds = takeWhile (isDigitOf radix) s3
      in if ds = [] then None
         else Some ((if negative then - 1 else 1) * int (digitsValue radix ds)))"

section \<open>View sync\<close>

text \<open>The clock emoji of the status-bar text, U+1F552, as its UTF-8 bytes.\<close>

definition clockEmoji :: string where
  "clockEmoji = [CHR 0xF0, CHR 0x9F, CHR 0x95, CHR 0x92]"

text \<open>
  \<open>updateStatusBar\<close>. \<open>Array.prototype.sort\<close> sorts \<open>this.timers\<close> in place and is
  stable, as \<open>sort_key\<close> is; element 0 is read only in the branch where the array is
  not empty.
\<close>

definition timerText :: "int \<Rightarrow> nat \<Rightarrow> timer \<Rightarrow> string" where
  "timerText now activeTimers nextTimer =
     (let remainingTime = endTime nextTimer - now;
          minutesLeft = remainingTime div (60 * 1000);
          secondsLeft = jsRem remainingTime (60 * 1000) div 1000
      in showNat activeTimers @ '' active timer(s) '' @ clockEmoji @ '' '' @ label nextTimer
           @ '': '' @ showInt minutesLeft @ '':'' @ padStart 2 (CHR ''0'') (showInt secondsLeft))"

definition updateStatusBar :: "int \<Rightarrow> state \<Rightarrow> state" where
  "updateStatusBar now s =
     (let activeTimers = length (timers s);
          s1 = (if activeTimers = 0 then s\<lparr>timerStatusBarText := ''No active timers''\<rparr>
                else let sorted = sort_key endTime (timers s);
                         nextTimer = hd sorted
                     in s\<lparr>timers := sorted,
                          timerStatusBarText := timerText now activeTimers nextTimer\<rparr>);
          totalTasks = length (tasks s1)
      in if totalTasks > 0
         then s1\<lparr>taskStatusBarText :=
                   showNat (length (filter completed (tasks s1))) @ ''/'' @ showNat totalTasks
                     @ '' tasks completed''\<rparr>
         else s1\<lparr>taskStatusBarText := ''No tasks''\<rparr>)"

definition sendDataToWebview :: "int \<Rightarrow> state \<Rightarrow> state" where
  "sendDataToWebview now s =
     (if webviewView s
      then emit (PostMessage (tasks s)
                   (map (\<lambda>t. (label t, showInt ((endTime t - now) div (60 * 1000)) @ '' min''))
                        (timers s))) s
      else s)"

definition serialize :: "timer \<Rightarrow> stored_timer" where
  "serialize t = \<lparr>label = label t, endTime = endTime t\<rparr>"

definition updateViews :: "int \<Rightarrow> state \<Rightarrow> state" where
  "updateViews now s =
     (let s1 = updateStatusBar now s;
          s2 = sendDataToWebview now s1;
          serializedTimers = map serialize (timers s2)
      in s2\<lparr>activeTimersKey := Some serializedTimers, tasksKey := Some (tasks s2)\<rparr>)"

section \<open>Task list\<close>

text \<open>
  The index is the number the command or the panel message carries, an integer. The three
  operations share the guard \<open>index >= 0 && index < this.tasks.length\<close>; inside it the
  element exists, so \<open>nth\<close> and \<open>list_update\<close> are the array accesses of the source.
\<close>

definition editTask :: "int \<Rightarrow> int \<Rightarrow> string \<Rightarrow> state \<Rightarrow> state" where
  "editTask now index descr s =
     (if index \<ge> 0 \<and> index < int (length (tasks s))
      then updateViews now
             (s\<lparr>tasks := (tasks s)[nat index := (tasks s ! nat index)\<lparr>description := descr\<rparr>]\<rparr>)
      else s)"

definition toggleTask :: "int \<Rightarrow> int \<Rightarrow> state \<Rightarrow> state" where
  "toggleTask now index s =
     (if index \<ge> 0 \<and> index < int (length (tasks s))
      then updateViews now
             (s\<lparr>tasks := (tasks s)[nat index :=
                  (tasks s ! nat index)\<lparr>completed := \<not> completed (tasks s ! nat index)\<rparr>]\<rparr>)
      else s)"

definition deleteTask :: "int \<Rightarrow> int \<Rightarrow> state \<Rightarrow> state" where
  "deleteTask now index s =
     (if index \<ge> 0 \<and> index < int (length (tasks s))
      then updateViews now
             (s\<lparr>tasks := take (nat index) (tasks s) @ drop (Suc (nat index)) (tasks s)\<rparr>)
      else s)"

text \<open>\<open>addTask\<close>: the input box gives \<open>None\<close> when it is dismissed.\<close>

definition addTask :: "int \<Rightarrow> string option \<Rightarrow> state \<Rightarrow> state" where
  "addTask now input s =
     (case input of
        None \<Rightarrow> s
      | Some task \<Rightarrow>
          if task = [] then s
          else updateViews now (s\<lparr>tasks := tasks s @ [\<lparr>description = task, completed = False\<rparr>]\<rparr>))"

section \<open>Timer engine\<close>

text \<open>
  The label loop of \<open>startTimer\<close>:
  \<^verbatim>\<open>while (this.timers.some(t => t.label === label)) { label += '*'; }\<close>
  It stops because a label longer than every active label collides with none.
\<close>

function dedupLabel :: "timer list \<Rightarrow> string \<Rightarrow> string" where
  "dedupLabel ts l = (if list_ex (\<lambda>t. label t = l) ts then dedupLabel ts (l @ ''*'') else l)"
  by pat_completeness auto
termination
proof (relation "measure (\<lambda>(ts, l). Suc (sum_list (map (\<lambda>t. length (label t)) ts)) - length l)")
  show "wf (measure (\<lambda>(ts, l). Suc (sum_list (map (\<lambda>t. length (label t)) ts)) - length l))"
    by simp
next
  fix ts :: "timer list" and l :: string
  assume "list_ex (\<lambda>t. label t = l) ts"
  then obtain t where t: "t \<in> set ts" "label t = l"
    by (auto simp: list_ex_iff)
  have "length (label t) \<le> sum_list (map (\<lambda>t. length (label t)) ts)"
    using t(1) by (induction ts) auto
  with t(2) show "((ts, l @ ''*''), (ts, l))
      \<in> measure (\<lambda>(ts, l). Suc (sum_list (map (\<lambda>t. length (label t)) ts)) - length l)"
    by simp
qed

declare dedupLabel.simps [simp del]

text \<open>
  The validator of the minutes prompt; \<open>None\<close> is the source's \<open>null\<close> (input
  accepted). The host does not let the user accept an input the validator rejects.
\<close>

definition validateInput :: "string \<Rightarrow> string option" where
  "validateInput v =
     (if (case parseInt v of None \<Rightarrow> True | Some n \<Rightarrow> n \<le> 0)
      then Some ''Please enter a positive number'' else None)"

text \<open>
  \<open>startTimer\<close>. The two input boxes give \<open>None\<close> when dismissed. Everything after the
  second prompt runs in one turn: the clock is read, the label is deduplicated, the tick
  is registered, the timer is pushed and the views are updated.
\<close>

definition startTimer :: "int \<Rightarrow> string option \<Rightarrow> string option \<Rightarrow> state \<Rightarrow> state" where
  "startTimer now labelInput minutesInput s =
     (case labelInput of
        None \<Rightarrow> s
      | Some label0 \<Rightarrow>
          if label0 = [] then s
          else (case minutesInput of
                  None \<Rightarrow> s
                | Some minutesStr \<Rightarrow>
                    if minutesStr = [] \<or> validateInput minutesStr \<noteq> None then s
                    else (case parseInt minutesStr of
                            None \<Rightarrow> s
                          | Some minutes \<Rightarrow>
                              let endTime' = now + minutes * 60 * 1000;
                                  label' = dedupLabel (timers s) label0;
                                  timerInterval' = nextHandle s;
                                  s1 = setInterval (StartedTick label' endTime') s;
                                  s2 = s1\<lparr>timers := timers s1 @
                                         [\<lparr>label = label', endTime = endTime',
                                           timerInterval = timerInterval'\<rparr>]\<rparr>
                              in updateViews now s2)))"

text \<open>
  One firing of the tick that \<open>startTimer\<close> registered under handle \<open>h\<close>. The
  branch for time left computes two unused numbers and refreshes the status bar.
\<close>

definition startedTick :: "int \<Rightarrow> handle \<Rightarrow> string \<Rightarrow> int \<Rightarrow> state \<Rightarrow> state" where
  "startedTick now h l e s =
     (let remainingTime = e - now
      in if remainingTime \<le> 0
         then let s1 = clearInterval h s;
                  s2 = emit (Notification ''Time's up!'' (l @ '' timer has completed.'')) s1;
                  s3 = emit (InformationMessage (l @ '' timer has completed.'')) s2;
                  s4 = s3\<lparr>timers := filter (\<lambda>t. label t \<noteq> l) (timers s3)\<rparr>
              in updateStatusBar now s4
         else updateStatusBar now s)"

text \<open>One firing of the tick that \<open>restoreTimers\<close> registered under handle \<open>h\<close>.\<close>

definition restoredTick :: "int \<Rightarrow> handle \<Rightarrow> stored_timer \<Rightarrow> state \<Rightarrow> state" where
  "restoredTick now h tm s =
     (let timeRemaining = endTime tm - now
      in if timeRemaining \<le> 0 then clearInterval h s else s)"

text \<open>A cleared or unknown handle has no callback: nothing runs.\<close>

definition tick :: "int \<Rightarrow> handle \<Rightarrow> state \<Rightarrow> state" where
  "tick now h s =
     (case map_of (intervals s) h of
        None \<Rightarrow> s
      | Some (StartedTick l e) \<Rightarrow> startedTick now h l e s
      | Some (RestoredTick tm) \<Rightarrow> restoredTick now h tm s)"

text \<open>\<open>stopTimer\<close>; \<open>CHR 0x22\<close> is the double quote of the error text.\<close>

definition stopTimer :: "int \<Rightarrow> string \<Rightarrow> state \<Rightarrow> state" where
  "stopTimer now l s =
     (case find (\<lambda>t. label t = l) (timers s) of
        Some tm \<Rightarrow>
          let s1 = clearInterval (timerInterval tm) s;
              s2 = emit (InformationMessage (l @ '' timer stopped.'')) s1;
              s3 = s2\<lparr>timers := filter (\<lambda>t. label t \<noteq> l) (timers s2)\<rparr>
          in updateViews now s3
      | None \<Rightarrow> emit (ErrorMessage (''No timer found with label '' @ [CHR 0x22] @ l @ [CHR 0x22] @ ''.'')) s)"

definition clearTimers :: "int \<Rightarrow> state \<Rightarrow> state" where
  "clearTimers now s =
     (let s1 = fold (\<lambda>t. clearInterval (timerInterval t)) (timers s) s;
          s2 = s1\<lparr>timers := []\<rparr>;
          s3 = s2\<lparr>activeTimersKey := Some []\<rparr>;
          s4 = emit (InformationMessage ''All timers cleared.'') s3
      in updateViews now s4)"

text \<open>The body of the \<open>forEach\<close> of \<open>restoreTimers\<close>, then the function itself.\<close>

definition restoreTimer :: "int \<Rightarrow> stored_timer \<Rightarrow> state \<Rightarrow> state" where
  "restoreTimer now tm s =
     (let remainingTime = endTime tm - now
      in if remainingTime \<le> 0
         then emit (InformationMessage (label tm @ '' timer has completed.'')) s
         else let timerInterval' = nextHandle s;
                  s1 = setInterval (RestoredTick tm) s
              in s1\<lparr>timers := timers s1 @
                     [\<lparr>label = label tm, endTime = endTime tm, timerInterval = timerInterval'\<rparr>]\<rparr>)"

definition restoreTimers :: "int \<Rightarrow> state \<Rightarrow> state" where
  "restoreTimers now s =
     (let s0 = s\<lparr>timers := []\<rparr>;
          stored_timers = (case activeTimersKey s0 of None \<Rightarrow> [] | Some ts \<Rightarrow> ts)
      in updateStatusBar now (fold (restoreTimer now) stored_timers s0))"

text \<open>
  \<open>restoreTasks\<close> reads the key that the constructor has initialised just before; an
  absent key does not reach it.
\<close>

definition restoreTasks :: "state \<Rightarrow> state" where
  "restoreTasks s = s\<lparr>tasks := (case tasksKey s of None \<Rightarrow> [] | Some ts \<Rightarrow> ts)\<rparr>"

definition initializeStatusBar :: "int \<Rightarrow> state \<Rightarrow> state" where
  "initializeStatusBar now s =
     updateStatusBar now (s\<lparr>timerStatusBarText := ''No active timers'', taskStatusBarText := ''No tasks''\<rparr>)"

text \<open>
  The constructor, run when the extension is activated in a fresh process: no interval is
  registered yet, and the two keys hold what an earlier process left there.
\<close>

definition constructor :: "int \<Rightarrow> stored_timer list option \<Rightarrow> task list option \<Rightarrow> state" where
  "constructor now storedTimers storedTasks =
     (let s0 = \<lparr>timers = [], tasks = [], webviewView = False,
                timerStatusBarText = [], taskStatusBarText = [],
                activeTimersKey = (case storedTimers of None \<Rightarrow> Some [] | Some ts \<Rightarrow> Some ts),
                tasksKey = (case storedTasks of None \<Rightarrow> Some [] | Some ts \<Rightarrow> Some ts),
                intervals = [], nextHandle = 0, outputs = []\<rparr>
      in restoreTasks (restoreTimers now (initializeStatusBar now s0)))"

section \<open>The program as a state machine\<close>

text \<open>
  What can happen to a running provider: a command, a message from the panel, the panel
  being attached, or the firing of a registered interval. Each carries the clock reading of
  its turn.
\<close>

datatype event =
    StartTimer "string option" "string option"
  | StopTimer string
  | ClearTimers
  | AddTask "string option"
  | EditTask int string
  | ToggleTask int
  | DeleteTask int
  | ResolveWebviewView
  | GetData
  | Tick handle

fun step :: "int \<Rightarrow> event \<Rightarrow> state \<Rightarrow> state" where
  "step now (StartTimer l m) s = startTimer now l m s"
| "step now (StopTimer l) s = stopTimer now l s"
| "step now ClearTimers s = clearTimers now s"
| "step now (AddTask d) s = addTask now d s"
| "step now (EditTask i d) s = editTask now i d s"
| "step now (ToggleTask i) s = toggleTask now i s"
| "step now (DeleteTask i) s = deleteTask now i s"
| "step now ResolveWebviewView s = s\<lparr>webviewView := True\<rparr>"
| "step now GetData s = sendDataToWebview now s"
| "step now (Tick h) s = tick now h s"

fun run :: "(int \<times> event) list \<Rightarrow> state \<Rightarrow> state" where
  "run [] s = s"
| "run ((now, e) # es) s = run es (step now e s)"

text \<open>
  The states the program can be in: a first activation on an empty store, any event, and a
  restart of the editor, which constructs a new provider on the store the old one left.
\<close>

inductive reachable :: "state \<Rightarrow> bool" where
  activate: "reachable (constructor now None None)"
| event: "reachable s \<Longrightarrow> reachable (step now e s)"
| restart: "reachable s \<Longrightarrow> reachable (constructor now (activeTimersKey s) (tasksKey s))"

section \<open>Consistency of a provider state\<close>

text \<open>
  Three properties that every state of a running provider has (shown below): the labels of
  the active timers, and those of the persisted snapshot, are pairwise distinct; every
  registered tick of \<open>startTimer\<close> belongs to a timer of the active list with the same
  label, end time and handle; and every handle in use was handed out by \<open>setInterval\<close>
  before.
\<close>

definition labelsDistinct :: "state \<Rightarrow> bool" where
  "labelsDistinct s =
     (distinct (map label (timers s))
      \<and> (case activeTimersKey s of None \<Rightarrow> True | Some st \<Rightarrow> distinct (map label st)))"

definition startedTimersListed :: "state \<Rightarrow> bool" where
  "startedTimersListed s =
     list_all (\<lambda>p. case snd p of
                   StartedTick l e \<Rightarrow>
                     \<lparr>label = l, endTime = e, timerInterval = fst p\<rparr> \<in> set (timers s)
                 | RestoredTick tm \<Rightarrow> True)
       (intervals s)"

definition handlesAllocated :: "state \<Rightarrow> bool" where
  "handlesAllocated s =
     (list_all (\<lambda>t. timerInterval t < nextHandle s) (timers s)
      \<and> list_all (\<lambda>p. fst p < nextHandle s) (intervals s))"

definition consistent :: "state \<Rightarrow> bool" where
  "consistent s = (labelsDistinct s \<and> startedTimersListed s \<and> handlesAllocated s)"

text \<open>
  A handle is retired when \<open>setInterval\<close> has handed it out and no callback is registered
  under it.
\<close>

definition retired :: "handle \<Rightarrow> state \<Rightarrow> bool" where
  "retired h s = (h < nextHandle s \<and> map_of (intervals s) h = None)"

section \<open>Basic facts about the primitives\<close>

lemma updateStatusBar_timers [simp]:
  "timers (updateStatusBar now s) = sort_key endTime (timers s)"
  by (simp add: updateStatusBar_def Let_def)

lemma updateStatusBar_fields [simp]:
  "tasks (updateStatusBar now s) = tasks s"
  "webviewView (updateStatusBar now s) = webviewView s"
  "activeTimersKey (updateStatusBar now s) = activeTimersKey s"
  "tasksKey (updateStatusBar now s) = tasksKey s"
  "intervals (updateStatusBar now s) = intervals s"
  "nextHandle (updateStatusBar now s) = nextHandle s"
  "outputs (updateStatusBar now s) = outputs s"
  by (simp_all add: updateStatusBar_def Let_def)

lemma emit_fields [simp]:
  "timers (emit out s) = timers s"
  "tasks (emit out s) = tasks s"
  "webviewView (emit out s) = webviewView s"
  "activeTimersKey (emit out s) = activeTimersKey s"
  "tasksKey (emit out s) = tasksKey s"
  "intervals (emit out s) = intervals s"
  "nextHandle (emit out s) = nextHandle s"
  "outputs (emit out s) = outputs s @ [out]"
  by (simp_all add: emit_def)

lemma sendDataToWebview_fields [simp]:
  "timers (sendDataToWebview now s) = timers s"
  "tasks (sendDataToWebview now s) = tasks s"
  "webviewView (sendDataToWebview now s) = webviewView s"
  "activeTimersKey (sendDataToWebview now s) = activeTimersKey s"
  "tasksKey (sendDataToWebview now s) = tasksKey s"
  "intervals (sendDataToWebview now s) = intervals s"
  "nextHandle (sendDataToWebview now s) = nextHandle s"
  "timerStatusBarText (sendDataToWebview now s) = timerStatusBarText s"
  "taskStatusBarText (sendDataToWebview now s) = taskStatusBarText s"
  by (simp_all add: sendDataToWebview_def emit_def)

lemma updateViews_fields [simp]:
  "timers (updateViews now s) = sort_key endTime (timers s)"
  "tasks (updateViews now s) = tasks s"
  "webviewView (updateViews now s) = webviewView s"
  "activeTimersKey (updateViews now s) = Some (map serialize (sort_key endTime (timers s)))"
  "tasksKey (updateViews now s) = Some (tasks s)"
  "intervals (updateViews now s) = intervals s"
  "nextHandle (updateViews now s) = nextHandle s"
  by (simp_all add: updateViews_def Let_def)

lemma clearInterval_fields [simp]:
  "timers (clearInterval h s) = timers s"
  "tasks (clearInterval h s) = tasks s"
  "webviewView (clearInterval h s) = webviewView s"
  "activeTimersKey (clearInterval h s) = activeTimersKey s"
  "tasksKey (clearInterval h s) = tasksKey s"
  "intervals (clearInterval h s) = filter (\<lambda>p. fst p \<noteq> h) (intervals s)"
  "nextHandle (clearInterval h s) = nextHandle s"
  "outputs (clearInterval h s) = outputs s"
  by (simp_all add: clearInterval_def)

lemma setInterval_fields [simp]:
  "timers (setInterval cb s) = timers s"
  "tasks (setInterval cb s) = tasks s"
  "webviewView (setInterval cb s) = webviewView s"
  "activeTimersKey (setInterval cb s) = activeTimersKey s"
  "tasksKey (setInterval cb s) = tasksKey s"
  "intervals (setInterval cb s) = intervals s @ [(nextHandle s, cb)]"
  "nextHandle (setInterval cb s) = Suc (nextHandle s)"
  "outputs (setInterval cb s) = outputs s"
  by (simp_all add: setInterval_def)

text \<open>Two concrete states used as test inputs below.\<close>

lemma constructor_fresh:
  "constructor now None None =
     \<lparr>timers = [], tasks = [], webviewView = False,
      timerStatusBarText = ''No active timers'', taskStatusBarText = ''No tasks'',
      activeTimersKey = Some [], tasksKey = Some [],
      intervals = [], nextHandle = 0, outputs = []\<rparr>"
  by (simp add: constructor_def initializeStatusBar_def restoreTimers_def restoreTasks_def
      updateStatusBar_def Let_def)

lemma started_Build:
  "startTimer 0 (Some ''Build'') (Some ''1'') (constructor 0 None None) =
     \<lparr>timers = [\<lparr>label = ''Build'', endTime = 60000, timerInterval = 0\<rparr>],
      tasks = [], webviewView = False,
      timerStatusBarText = ''1 active timer(s) '' @ clockEmoji @ '' Build: 1:00'',
      taskStatusBarText = ''No tasks'',
      activeTimersKey = Some [\<lparr>label = ''Build'', endTime = 60000\<rparr>],
      tasksKey = Some [], intervals = [(0, StartedTick ''Build'' 60000)],
      nextHandle = 1, outputs = []\<rparr>"
  by code_simp

section \<open>Task operations on an index out of range\<close>

text \<open>
  Claim C8. For every index \<open>i\<close> out of range for the current task list (\<open>i < 0\<close> or
  \<open>i \<ge> tasks.length\<close>), each of \<open>editTask\<close>, \<open>toggleTask\<close> and \<open>deleteTask\<close>
  returns the state it was given: the task list and every other field are unchanged, and
  nothing is added to the outputs, so no error message is shown.
\<close>

theorem out_of_range_index_ignored:
  assumes "index < 0 \<or> index \<ge> int (length (tasks s))"
  shows "editTask now index descr s = s \<and> toggleTask now index s = s
         \<and> deleteTask now index s = s"
  using assms by (auto simp: editTask_def toggleTask_def deleteTask_def)

theorem out_of_range_index_ignored_witness:
  "((7::int) < 0 \<or> 7 \<ge> int (length (tasks (addTask 0 (Some ''Write spec'') (constructor 0 None None)))))
   \<and> editTask 5 7 ''x'' (addTask 0 (Some ''Write spec'') (constructor 0 None None))
       = addTask 0 (Some ''Write spec'') (constructor 0 None None)
   \<and> toggleTask 5 7 (addTask 0 (Some ''Write spec'') (constructor 0 None None))
       = addTask 0 (Some ''Write spec'') (constructor 0 None None)
   \<and> deleteTask 5 7 (addTask 0 (Some ''Write spec'') (constructor 0 None None))
       = addTask 0 (Some ''Write spec'') (constructor 0 None None)"
proof -
  have h: "(7::int) < 0
      \<or> 7 \<ge> int (length (tasks (addTask 0 (Some ''Write spec'') (constructor 0 None None))))"
    by (simp add: addTask_def constructor_fresh)
  show ?thesis
    using h out_of_range_index_ignored [OF h, of 5 "''x''"] by simp
qed

section \<open>Stopping a label that is not active\<close>

text \<open>
  Claim C5. For every label \<open>L\<close> that equals no active timer's label, \<open>stopTimer L\<close>
  changes nothing but the outputs: the timer list, the task list, the two persisted keys
  and the registered intervals are as before, and exactly one error message naming \<open>L\<close>
  is shown. The function is total on this branch: it touches no field of a missing
  object, so nothing is thrown.
\<close>

theorem stop_unknown_label_reports_error:
  assumes "\<forall>t \<in> set (timers s). label t \<noteq> l"
  shows "stopTimer now l s =
           s\<lparr>outputs := outputs s @
                [ErrorMessage (''No timer found with label '' @ [CHR 0x22] @ l @ [CHR 0x22] @ ''.'')]\<rparr>"
proof -
  have "find (\<lambda>t. label t = l) (timers s) = None"
    using assms by (simp add: find_None_iff)
  then show ?thesis
    by (simp add: stopTimer_def emit_def)
qed

theorem stop_unknown_label_reports_error_witness:
  "stopTimer 5 ''Deploy'' (startTimer 0 (Some ''Build'') (Some ''1'') (constructor 0 None None))
     = (startTimer 0 (Some ''Build'') (Some ''1'') (constructor 0 None None))
         \<lparr>outputs := [ErrorMessage (''No timer found with label '' @ [CHR 0x22] @ ''Deploy'' @ [CHR 0x22] @ ''.'')]\<rparr>"
proof -
  have h: "\<forall>t \<in> set (timers (startTimer 0 (Some ''Build'') (Some ''1'') (constructor 0 None None))).
      label t \<noteq> ''Deploy''"
    by (simp add: started_Build)
  show ?thesis
    using h stop_unknown_label_reports_error [OF h, of 5] by (simp add: started_Build)
qed

section \<open>The timer text of the status bar\<close>

lemma digitChar_mem: "n < 10 \<Longrightarrow> digitChar n \<in> set ''0123456789''"
  unfolding digitChar_def by (rule nth_mem) simp

lemma showNat_hd: "showNat n \<noteq> [] \<and> hd (showNat n) \<in> set ''0123456789''"
proof (induction n rule: showNat.induct)
  case (1 n)
  show ?case
  proof (cases "n < 10")
    case True
    with digitChar_mem [of n] show ?thesis by (simp add: showNat.simps [of n])
  next
    case False
    with 1 show ?thesis by (simp add: showNat.simps [of n])
  qed
qed

lemma mod_div_swap:
  fixes a :: int
  assumes "0 < b" "0 \<le> c"
  shows "(a mod (b * c)) div b = (a div b) mod c"
proof -
  have "a mod (b * c) = b * (a div b mod c) + a mod b"
    using assms by (simp add: zmod_zmult2_eq)
  then show ?thesis using assms by simp
qed

lemma seconds_field:
  assumes "0 \<le> (r::int)"
  shows "jsRem r (60 * 1000) div 1000 = (r div 1000) mod 60"
    and "0 \<le> (r div 1000) mod 60" and "(r div 1000) mod 60 < 60"
proof -
  have "jsRem r (60 * 1000) = r mod (1000 * 60)"
    using assms by (cases "r = 0") (simp_all add: jsRem_def)
  then show "jsRem r (60 * 1000) div 1000 = (r div 1000) mod 60"
    using mod_div_swap [of 1000 60 r] by simp
qed simp_all

lemma showNat_not_No: "showNat n @ rest \<noteq> ''No active timers''"
proof
  assume eq: "showNat n @ rest = ''No active timers''"
  from showNat_hd [of n] obtain c cs where cs: "showNat n = c # cs" "c \<in> set ''0123456789''"
    by (cases "showNat n") auto
  from eq cs(1) have "c = CHR ''N''" by simp
  with cs(2) show False by simp
qed

lemma hd_sort_key_min:
  assumes "xs \<noteq> []"
  shows "hd (sort_key f xs) \<in> set xs \<and> (\<forall>u \<in> set xs. f (hd (sort_key f xs)) \<le> f u)"
proof -
  have ne: "sort_key f xs \<noteq> []"
    using assms by (metis length_sort length_0_conv)
  then obtain y ys where y: "sort_key f xs = y # ys"
    by (cases "sort_key f xs") auto
  have "sorted (map f (y # ys))"
    using sorted_sort_key [of f xs] y by simp
  then have "\<forall>u \<in> set (y # ys). f y \<le> f u" by auto
  moreover have "set (y # ys) = set xs"
    using set_sort [of f xs] y by simp
  ultimately show ?thesis using y by auto
qed

lemma two_digits:
  assumes "n < 60"
  shows "\<exists>d1 d2. d1 < 10 \<and> d2 < 10 \<and> padStart 2 (CHR ''0'') (showNat n) = [digitChar d1, digitChar d2]
           \<and> 10 * d1 + d2 = n"
proof (cases "n < 10")
  case True
  then have "padStart 2 (CHR ''0'') (showNat n) = [digitChar 0, digitChar n]"
    by (simp add: showNat.simps [of n] padStart_def digitChar_def)
  with True show ?thesis by (intro exI [of _ 0] exI [of _ n]) simp
next
  case False
  with assms have d: "n div 10 < 10" by simp
  have "showNat n = [digitChar (n div 10), digitChar (n mod 10)]"
    using False d by (simp add: showNat.simps [of n] showNat.simps [of "n div 10"])
  then have "padStart 2 (CHR ''0'') (showNat n) = [digitChar (n div 10), digitChar (n mod 10)]"
    by (simp add: padStart_def)
  with d show ?thesis
    by (intro exI [of _ "n div 10"] exI [of _ "n mod 10"]) simp
qed

text \<open>
  The status bar while a timer that has passed its end time is still listed. The snapshot
  \<open>[{label: A, endTime: 2000}]\<close> is restored at time 1000; the tick of \<open>A\<close> fires at
  3000 and leaves \<open>A\<close> in the list; a task is added at time 70000. The remaining time is
  \<open>-68000\<close>, its quotient by 60000 rounds down to \<open>-2\<close>, its remainder
  \<open>-8000\<close> gives \<open>-8\<close>, which \<open>padStart\<close> leaves as it is: the text ends in
  \<open>-2:-8\<close>, not in a colon and two digits.
\<close>

theorem timer_status_bar_text_negative_counterexample:
  "timerStatusBarText (addTask 70000 (Some ''Write spec'')
       (tick 3000 0 (constructor 1000 (Some [\<lparr>label = ''A'', endTime = 2000\<rparr>]) None)))
     = ''1 active timer(s) '' @ clockEmoji @ '' A: -2:-8''
   \<and> \<not> (\<exists>pre d1 d2. d1 < 10 \<and> d2 < 10
          \<and> timerStatusBarText (addTask 70000 (Some ''Write spec'')
               (tick 3000 0 (constructor 1000 (Some [\<lparr>label = ''A'', endTime = 2000\<rparr>]) None)))
             = pre @ '':'' @ [digitChar d1, digitChar d2])"
proof -
  let ?txt = "timerStatusBarText (addTask 70000 (Some ''Write spec'')
       (tick 3000 0 (constructor 1000 (Some [\<lparr>label = ''A'', endTime = 2000\<rparr>]) None)))"
  have shown: "?txt = ''1 active timer(s) '' @ clockEmoji @ '' A: -2:-8''"
    by code_simp
  have "\<not> (\<exists>pre d1 d2. d1 < 10 \<and> d2 < 10 \<and> ?txt = pre @ '':'' @ [digitChar d1, digitChar d2])"
  proof
    assume "\<exists>pre d1 d2. d1 < 10 \<and> d2 < 10 \<and> ?txt = pre @ '':'' @ [digitChar d1, digitChar d2]"
    then obtain pre d1 d2 where d: "d1 < 10"
      and eq: "?txt = pre @ '':'' @ [digitChar d1, digitChar d2]" by blast
    have "last (butlast ?txt) = CHR ''-''"
      unfolding shown by (simp add: clockEmoji_def)
    moreover have "last (butlast (pre @ '':'' @ [digitChar d1, digitChar d2])) = digitChar d1"
      by (simp add: butlast_append)
    ultimately have "digitChar d1 = CHR ''-''"
      using eq by simp
    with digitChar_mem [OF d] show False by simp
  qed
  with shown show ?thesis by blast
qed

text \<open>
  Claim C7, amended. Let the clock and the end times of all active timers be safe
  timestamps, as they are unless a timer was asked for more than about \<open>1.5 * 10^11\<close>
  minutes. After \<open>updateStatusBar\<close> the timer text is the fixed string
  \<open>No active timers\<close> exactly when the timer list is empty. Otherwise there is an active
  timer \<open>tm\<close> whose \<open>endTime\<close> is the smallest of all, and the text is the number of
  active timers, \<open>active timer(s)\<close>, the clock sign, the label of \<open>tm\<close>, the
  remaining milliseconds divided by 60000 and rounded down, a colon, and the seconds
  field padded on the left with \<open>0\<close> to width two. While \<open>tm\<close> has not passed its
  \<open>endTime\<close> this is its remaining time as \<open>minutes:seconds\<close>: the seconds field
  is exactly two decimal digits, those of the remaining whole seconds modulo 60.
\<close>

theorem timer_status_bar_text:
  assumes "safeTime now" and "list_all (\<lambda>t. safeTime (endTime t)) (timers s)"
  shows "((timerStatusBarText (updateStatusBar now s) = ''No active timers'') = (timers s = []))
   \<and> (timers s \<noteq> [] \<longrightarrow>
        (\<exists>tm \<in> set (timers s).
           (\<forall>u \<in> set (timers s). endTime tm \<le> endTime u)
         \<and> timerStatusBarText (updateStatusBar now s) =
             showNat (length (timers s)) @ '' active timer(s) '' @ clockEmoji @ '' '' @ label tm
               @ '': '' @ showInt ((endTime tm - now) div 60000) @ '':''
               @ padStart 2 (CHR ''0'') (showInt (jsRem (endTime tm - now) 60000 div 1000))
         \<and> (now \<le> endTime tm \<longrightarrow>
              (\<exists>d1 d2. d1 < 10 \<and> d2 < 10
                 \<and> padStart 2 (CHR ''0'') (showInt (jsRem (endTime tm - now) 60000 div 1000))
                     = [digitChar d1, digitChar d2]
                 \<and> int (10 * d1 + d2) = ((endTime tm - now) div 1000) mod 60))))"
proof (cases "timers s = []")
  case True
  then show ?thesis by (simp add: updateStatusBar_def Let_def)
next
  case False
  define tm where "tm = hd (sort_key endTime (timers s))"
  have bar: "timerStatusBarText (updateStatusBar now s) = timerText now (length (timers s)) tm"
    using False by (simp add: updateStatusBar_def Let_def tm_def)
  have mem: "tm \<in> set (timers s)" and least: "\<forall>u \<in> set (timers s). endTime tm \<le> endTime u"
    using hd_sort_key_min [OF False, of endTime] by (simp_all add: tm_def)
  have ne: "timerStatusBarText (updateStatusBar now s) \<noteq> ''No active timers''"
    unfolding bar timerText_def Let_def by (rule showNat_not_No)
  have fmt: "timerText now (length (timers s)) tm =
      showNat (length (timers s)) @ '' active timer(s) '' @ clockEmoji @ '' '' @ label tm
        @ '': '' @ showInt ((endTime tm - now) div 60000) @ '':''
        @ padStart 2 (CHR ''0'') (showInt (jsRem (endTime tm - now) 60000 div 1000))"
    by (simp add: timerText_def Let_def)
  have digits: "\<exists>d1 d2. d1 < 10 \<and> d2 < 10
        \<and> padStart 2 (CHR ''0'') (showInt (jsRem (endTime tm - now) 60000 div 1000))
            = [digitChar d1, digitChar d2]
        \<and> int (10 * d1 + d2) = ((endTime tm - now) div 1000) mod 60"
    if le: "now \<le> endTime tm"
  proof -
    let ?r = "endTime tm - now"
    let ?sec = "(?r div 1000) mod 60"
    from le have r: "0 \<le> ?r" by simp
    have sec: "jsRem ?r 60000 div 1000 = ?sec" "0 \<le> ?sec" "?sec < 60"
      using seconds_field [OF r] by simp_all
    have "showInt ?sec = showNat (nat ?sec)"
      using sec(2) by (simp add: showInt_def)
    moreover have "nat ?sec < 60" using sec(2,3) by simp
    from two_digits [OF this] obtain d1 d2 where
      d: "d1 < 10" "d2 < 10" "padStart 2 (CHR ''0'') (showNat (nat ?sec)) = [digitChar d1, digitChar d2]"
         "10 * d1 + d2 = nat ?sec" by blast
    ultimately show ?thesis
      using sec(1,2) by (metis int_nat_eq)
  qed
  show ?thesis
    using False ne mem least bar fmt digits by auto
qed

theorem timer_status_bar_text_witness:
  "timerStatusBarText (updateStatusBar 1000
       (startTimer 0 (Some ''Build'') (Some ''1'') (constructor 0 None None)))
     = ''1 active timer(s) '' @ clockEmoji @ '' Build: 0:59''
   \<and> timerStatusBarText (updateStatusBar 1000
       (startTimer 0 (Some ''Build'') (Some ''1'') (constructor 0 None None)))
     \<noteq> ''No active timers''
   \<and> timerStatusBarText (updateStatusBar 1000 (constructor 0 None None)) = ''No active timers''"
proof -
  let ?S = "startTimer 0 (Some ''Build'') (Some ''1'') (constructor 0 None None)"
  have clock: "safeTime 1000"
    by (simp add: safeTime_def MAX_SAFE_INTEGER_def)
  have ends: "list_all (\<lambda>t. safeTime (endTime t)) (timers ?S)"
    by (simp add: started_Build safeTime_def MAX_SAFE_INTEGER_def)
  have none: "list_all (\<lambda>t. safeTime (endTime t)) (timers (constructor 0 None None))"
    by (simp add: constructor_fresh)
  have ne: "timers ?S \<noteq> []" by (simp add: started_Build)
  have e: "timers (constructor 0 None None) = []" by (simp add: constructor_fresh)
  have shown: "timerStatusBarText (updateStatusBar 1000 ?S)
      = ''1 active timer(s) '' @ clockEmoji @ '' Build: 0:59''"
    by code_simp
  from timer_status_bar_text [OF clock ends] ne
  have "timerStatusBarText (updateStatusBar 1000 ?S) \<noteq> ''No active timers''" by blast
  moreover from timer_status_bar_text [OF clock none] e
  have "timerStatusBarText (updateStatusBar 1000 (constructor 0 None None)) = ''No active timers''"
    by blast
  ultimately show ?thesis using shown by blast
qed

section \<open>The order of the timer list\<close>

lemma serialize_fields [simp]:
  "label (serialize t) = label t" "endTime (serialize t) = endTime t"
  by (simp_all add: serialize_def)

lemma insort_key_map:
  "insort_key f (g x) (map g xs) = map g (insort_key (\<lambda>y. f (g y)) x xs)"
  by (induction xs) simp_all

lemma sort_key_map:
  "sort_key f (map g xs) = map g (sort_key (\<lambda>y. f (g y)) xs)"
  by (induction xs) (simp_all add: insort_key_map)

lemma serialize_sort_key:
  "map serialize (sort_key endTime ts) = sort_key endTime (map serialize ts)"
  by (simp add: sort_key_map)

lemma restoreTimer_serialized:
  "map serialize (timers (restoreTimer now tm s)) =
     map serialize (timers s) @ (if endTime tm > now then [tm] else [])"
  by (simp add: restoreTimer_def Let_def serialize_def)

lemma fold_restoreTimer_serialized:
  "map serialize (timers (fold (restoreTimer now) st s)) =
     map serialize (timers s) @ filter (\<lambda>e. endTime e > now) st"
  by (induction st arbitrary: s) (simp_all add: restoreTimer_serialized)

lemma restoreTimers_serialized:
  "map serialize (timers (restoreTimers now (p\<lparr>activeTimersKey := Some st\<rparr>))) =
     sort_key endTime (filter (\<lambda>e. endTime e > now) st)"
  by (simp add: restoreTimers_def Let_def serialize_sort_key fold_restoreTimer_serialized)

lemma filter_serialize:
  "filter (\<lambda>e. endTime e > t) (map serialize ts) = map serialize (filter (\<lambda>tm. endTime tm > t) ts)"
  by (induction ts) simp_all

text \<open>
  Claim C9. \<open>updateStatusBar\<close> leaves the in-memory timer list sorted by ascending
  \<open>endTime\<close> (it sorts the array in place to read its first element). Hence after
  \<open>updateViews\<close> the timer list is in ascending \<open>endTime\<close> order, the persisted
  snapshot is the projection of that sorted list, and the payload posted to an attached
  panel lists the timers in that order too.
\<close>

theorem view_sync_orders_timers_by_endTime:
  "timers (updateStatusBar now s) = sort_key endTime (timers s)
   \<and> timers (updateViews now s) = sort_key endTime (timers s)
   \<and> sorted (map endTime (timers (updateViews now s)))
   \<and> activeTimersKey (updateViews now s) = Some (map serialize (timers (updateViews now s)))
   \<and> (webviewView s \<longrightarrow>
        outputs (updateViews now s) = outputs s @
          [PostMessage (tasks s)
             (map (\<lambda>t. (label t, showInt ((endTime t - now) div (60 * 1000)) @ '' min''))
                (timers (updateViews now s)))])"
  by (simp add: updateViews_def sendDataToWebview_def Let_def)

theorem view_sync_orders_timers_by_endTime_witness:
  "timers (updateViews 10 ((constructor 0 None None)
       \<lparr>timers := [\<lparr>label = ''A'', endTime = 120000, timerInterval = 0\<rparr>,
                   \<lparr>label = ''B'', endTime = 60005, timerInterval = 1\<rparr>]\<rparr>))
     = [\<lparr>label = ''B'', endTime = 60005, timerInterval = 1\<rparr>,
        \<lparr>label = ''A'', endTime = 120000, timerInterval = 0\<rparr>]
   \<and> activeTimersKey (updateViews 10 ((constructor 0 None None)
       \<lparr>timers := [\<lparr>label = ''A'', endTime = 120000, timerInterval = 0\<rparr>,
                   \<lparr>label = ''B'', endTime = 60005, timerInterval = 1\<rparr>]\<rparr>))
     = Some [\<lparr>label = ''B'', endTime = 60005\<rparr>, \<lparr>label = ''A'', endTime = 120000\<rparr>]"
  using view_sync_orders_timers_by_endTime [of 10 "(constructor 0 None None)
       \<lparr>timers := [\<lparr>label = ''A'', endTime = 120000, timerInterval = 0\<rparr>,
                   \<lparr>label = ''B'', endTime = 60005, timerInterval = 1\<rparr>]\<rparr>"]
  by (simp add: serialize_def)

section \<open>Labels of created timers\<close>

lemma dedupLabel_least:
  "\<exists>k. dedupLabel ts l = l @ replicate k (CHR ''*'')
     \<and> (\<forall>j<k. l @ replicate j (CHR ''*'') \<in> label ` set ts)
     \<and> l @ replicate k (CHR ''*'') \<notin> label ` set ts"
proof (induction ts l rule: dedupLabel.induct)
  case (1 ts l)
  show ?case
  proof (cases "list_ex (\<lambda>t. label t = l) ts")
    case False
    then have "dedupLabel ts l = l" "l \<notin> label ` set ts"
      by (auto simp: dedupLabel.simps [of ts l] list_ex_iff)
    then show ?thesis by (intro exI [of _ 0]) simp
  next
    case True
    then have here: "l \<in> label ` set ts"
      by (auto simp: list_ex_iff)
    from 1 [OF True] obtain k where
      k: "dedupLabel ts (l @ ''*'') = (l @ ''*'') @ replicate k (CHR ''*'')"
         "\<forall>j<k. (l @ ''*'') @ replicate j (CHR ''*'') \<in> label ` set ts"
         "(l @ ''*'') @ replicate k (CHR ''*'') \<notin> label ` set ts"
      by blast
    have shift: "(l @ ''*'') @ replicate j (CHR ''*'') = l @ replicate (Suc j) (CHR ''*'')" for j
      by simp
    have "dedupLabel ts l = l @ replicate (Suc k) (CHR ''*'')"
      using True k(1) by (simp add: dedupLabel.simps [of ts l])
    moreover have "\<forall>j<Suc k. l @ replicate j (CHR ''*'') \<in> label ` set ts"
    proof (intro allI impI)
      fix j assume "j < Suc k"
      then show "l @ replicate j (CHR ''*'') \<in> label ` set ts"
        using here k(2) shift by (cases j) auto
    qed
    moreover have "l @ replicate (Suc k) (CHR ''*'') \<notin> label ` set ts"
      using k(3) shift by simp
    ultimately show ?thesis by blast
  qed
qed

lemma validateInput_accepts:
  "validateInput m = None \<Longrightarrow> \<exists>mins. parseInt m = Some mins \<and> 0 < mins"
  by (auto simp: validateInput_def split: option.splits if_splits)

lemma startTimer_accepted:
  assumes "l \<noteq> []" "m \<noteq> []" "parseInt m = Some mins" "0 < mins"
  shows "startTimer now (Some l) (Some m) s =
           updateViews now
             ((setInterval (StartedTick (dedupLabel (timers s) l) (now + mins * 60 * 1000)) s)
                \<lparr>timers := timers s @
                   [\<lparr>label = dedupLabel (timers s) l, endTime = now + mins * 60 * 1000,
                     timerInterval = nextHandle s\<rparr>]\<rparr>)"
  using assms by (simp add: startTimer_def validateInput_def Let_def)

lemma startTimer_timers:
  assumes "l \<noteq> []" "m \<noteq> []" "validateInput m = None"
  shows "\<exists>k mins. parseInt m = Some mins \<and> 0 < mins
      \<and> (\<forall>j<k. l @ replicate j (CHR ''*'') \<in> label ` set (timers s))
      \<and> l @ replicate k (CHR ''*'') \<notin> label ` set (timers s)
      \<and> mset (timers (startTimer now (Some l) (Some m) s)) =
          add_mset \<lparr>label = l @ replicate k (CHR ''*''), endTime = now + mins * 60000,
                    timerInterval = nextHandle s\<rparr> (mset (timers s))"
proof -
  from validateInput_accepts [OF assms(3)] obtain mins where
    mins: "parseInt m = Some mins" "0 < mins" by blast
  from dedupLabel_least [of "timers s" l] obtain k where
    k: "dedupLabel (timers s) l = l @ replicate k (CHR ''*'')"
       "\<forall>j<k. l @ replicate j (CHR ''*'') \<in> label ` set (timers s)"
       "l @ replicate k (CHR ''*'') \<notin> label ` set (timers s)" by blast
  have "mset (timers (startTimer now (Some l) (Some m) s)) =
          add_mset \<lparr>label = l @ replicate k (CHR ''*''), endTime = now + mins * 60000,
                    timerInterval = nextHandle s\<rparr> (mset (timers s))"
    by (simp add: startTimer_accepted [OF assms(1,2) mins] k(1))
  with mins k(2,3) show ?thesis by blast
qed

text \<open>
  Claim C4. When both prompts of \<open>startTimer\<close> are answered and the minutes pass the
  validator, the timer list gains exactly one timer. Its label is the requested label
  followed by \<open>k\<close> stars, where \<open>k\<close> is the least number for which that string is the
  label of no active timer: each shorter padding is taken. In particular, with no timer
  active, two creations with label \<open>Build\<close> give the labels \<open>Build\<close> and \<open>Build*\<close>.
\<close>

theorem created_label_is_least_starred:
  assumes "l \<noteq> []" and "m \<noteq> []" and "validateInput m = None"
  shows "(\<exists>k mins. parseInt m = Some mins \<and> 0 < mins
      \<and> (\<forall>j<k. l @ replicate j (CHR ''*'') \<in> label ` set (timers s))
      \<and> l @ replicate k (CHR ''*'') \<notin> label ` set (timers s)
      \<and> mset (timers (startTimer now (Some l) (Some m) s)) =
          add_mset \<lparr>label = l @ replicate k (CHR ''*''), endTime = now + mins * 60000,
                    timerInterval = nextHandle s\<rparr> (mset (timers s)))
    \<and> (timers s = [] \<and> m' \<noteq> [] \<and> validateInput m' = None \<longrightarrow>
         mset (map label (timers (startTimer now' (Some ''Build'') (Some m')
                                   (startTimer now (Some ''Build'') (Some m) s))))
           = {#''Build'', ''Build*''#})"
proof (intro conjI impI)
  show "\<exists>k mins. parseInt m = Some mins \<and> 0 < mins
      \<and> (\<forall>j<k. l @ replicate j (CHR ''*'') \<in> label ` set (timers s))
      \<and> l @ replicate k (CHR ''*'') \<notin> label ` set (timers s)
      \<and> mset (timers (startTimer now (Some l) (Some m) s)) =
          add_mset \<lparr>label = l @ replicate k (CHR ''*''), endTime = now + mins * 60000,
                    timerInterval = nextHandle s\<rparr> (mset (timers s))"
    using assms by (rule startTimer_timers)
next
  assume a: "timers s = [] \<and> m' \<noteq> [] \<and> validateInput m' = None"
  then have empty: "timers s = []" and m': "m' \<noteq> []" "validateInput m' = None"
    by simp_all
  have build: "''Build'' \<noteq> []" by simp
  let ?s1 = "startTimer now (Some ''Build'') (Some m) s"
  from startTimer_timers [OF build assms(2,3), of s now] obtain k mins where
    first: "\<forall>j<k. ''Build'' @ replicate j (CHR ''*'') \<in> label ` set (timers s)"
      "mset (timers ?s1) = add_mset \<lparr>label = ''Build'' @ replicate k (CHR ''*''),
          endTime = now + mins * 60000, timerInterval = nextHandle s\<rparr> (mset (timers s))"
    by blast
  have "k = 0"
  proof (cases k)
    case (Suc n)
    with first(1) have "''Build'' @ replicate 0 (CHR ''*'') \<in> label ` set (timers s)" by blast
    with empty show ?thesis by simp
  qed simp
  with first(2) empty have s1: "mset (timers ?s1) =
      {#\<lparr>label = ''Build'', endTime = now + mins * 60000, timerInterval = nextHandle s\<rparr>#}"
    by simp
  have "set (timers ?s1) =
      {\<lparr>label = ''Build'', endTime = now + mins * 60000, timerInterval = nextHandle s\<rparr>}"
    using arg_cong [OF s1, of set_mset] by simp
  then have labels1: "label ` set (timers ?s1) = {''Build''}"
    by simp
  from startTimer_timers [OF build m', of ?s1 now'] obtain k' mins' where
    second: "\<forall>j<k'. ''Build'' @ replicate j (CHR ''*'') \<in> label ` set (timers ?s1)"
      "''Build'' @ replicate k' (CHR ''*'') \<notin> label ` set (timers ?s1)"
      "mset (timers (startTimer now' (Some ''Build'') (Some m') ?s1)) =
         add_mset \<lparr>label = ''Build'' @ replicate k' (CHR ''*''), endTime = now' + mins' * 60000,
                   timerInterval = nextHandle ?s1\<rparr> (mset (timers ?s1))"
    by blast
  have "k' \<noteq> 0" using second(2) unfolding labels1 by auto
  moreover have "k' < 2"
  proof (rule ccontr)
    assume "\<not> k' < 2"
    then have "1 < k'" by simp
    with second(1) have "''Build'' @ replicate 1 (CHR ''*'') \<in> label ` set (timers ?s1)" by blast
    then show False unfolding labels1 by simp
  qed
  ultimately have "k' = 1" by simp
  have "mset (map label (timers (startTimer now' (Some ''Build'') (Some m') ?s1))) =
          image_mset label (mset (timers (startTimer now' (Some ''Build'') (Some m') ?s1)))"
    by simp
  also have "\<dots> = {#''Build'', ''Build*''#}"
    unfolding second(3) s1 using \<open>k' = 1\<close> by simp
  finally show "mset (map label (timers (startTimer now' (Some ''Build'') (Some m') ?s1)))
      = {#''Build'', ''Build*''#}" .
qed

theorem created_label_is_least_starred_witness:
  "map label (timers (startTimer 5 (Some ''Build'') (Some ''1'')
       (startTimer 0 (Some ''Build'') (Some ''1'') (constructor 0 None None))))
     = [''Build'', ''Build*'']
   \<and> mset (map label (timers (startTimer 5 (Some ''Build'') (Some ''1'')
       (startTimer 0 (Some ''Build'') (Some ''1'') (constructor 0 None None)))))
     = {#''Build'', ''Build*''#}"
proof -
  have valid: "''Build'' \<noteq> []" "''1'' \<noteq> []" "validateInput ''1'' = None"
    by code_simp+
  have e: "timers (constructor 0 None None) = [] \<and> ''1'' \<noteq> [] \<and> validateInput ''1'' = None"
    using valid by (simp add: constructor_fresh)
  have run: "map label (timers (startTimer 5 (Some ''Build'') (Some ''1'')
       (startTimer 0 (Some ''Build'') (Some ''1'') (constructor 0 None None))))
     = [''Build'', ''Build*'']"
    by code_simp
  from created_label_is_least_starred [where l = "''Build''" and m = "''1''"
      and s = "constructor 0 None None" and m' = "''1''" and now' = 5 and now = 0, OF valid] e
  have "mset (map label (timers (startTimer 5 (Some ''Build'') (Some ''1'')
       (startTimer 0 (Some ''Build'') (Some ''1'') (constructor 0 None None)))))
     = {#''Build'', ''Build*''#}"
    by blast
  with run show ?thesis by blast
qed

section \<open>Expiry of a restored timer\<close>

text \<open>For every input, the tick of a restored timer changes the interval table only.\<close>

lemma restoredTick_only_clears:
  "timers (restoredTick now h tm s) = timers s"
  "outputs (restoredTick now h tm s) = outputs s"
  "timerStatusBarText (restoredTick now h tm s) = timerStatusBarText s"
  "activeTimersKey (restoredTick now h tm s) = activeTimersKey s"
  by (simp_all add: restoredTick_def clearInterval_def)

text \<open>
  Claim C1 says that a timer re-armed by \<open>restoreTimers\<close> expires like one created by
  \<open>startTimer\<close>. The two ticks differ. The snapshot \<open>[{label: A, endTime: 2000}]\<close>
  restored at time 1000 gives one active timer with a registered tick. When that tick
  fires at time 3000, past the end time, it only clears its own interval: nothing is
  notified or shown, and the timer stays in the active list. A timer created at time 1000
  for one minute stays while its tick fires early, and at time 61000 the tick removes it
  and emits the desktop notification and the completion message.
\<close>

theorem restored_timer_expiry_is_silent:
  "timers (constructor 1000 (Some [\<lparr>label = ''A'', endTime = 2000\<rparr>]) None)
     = [\<lparr>label = ''A'', endTime = 2000, timerInterval = 0\<rparr>]
   \<and> intervals (constructor 1000 (Some [\<lparr>label = ''A'', endTime = 2000\<rparr>]) None)
     = [(0, RestoredTick \<lparr>label = ''A'', endTime = 2000\<rparr>)]
   \<and> tick 3000 0 (constructor 1000 (Some [\<lparr>label = ''A'', endTime = 2000\<rparr>]) None)
     = (constructor 1000 (Some [\<lparr>label = ''A'', endTime = 2000\<rparr>]) None)\<lparr>intervals := []\<rparr>
   \<and> outputs (tick 3000 0 (constructor 1000 (Some [\<lparr>label = ''A'', endTime = 2000\<rparr>]) None)) = []
   \<and> timers (tick 3000 0 (constructor 1000 (Some [\<lparr>label = ''A'', endTime = 2000\<rparr>]) None))
     = [\<lparr>label = ''A'', endTime = 2000, timerInterval = 0\<rparr>]
   \<and> timers (tick 3000 0 (startTimer 1000 (Some ''A'') (Some ''1'') (constructor 0 None None)))
     = [\<lparr>label = ''A'', endTime = 61000, timerInterval = 0\<rparr>]
   \<and> timers (tick 61000 0 (startTimer 1000 (Some ''A'') (Some ''1'') (constructor 0 None None))) = []
   \<and> outputs (tick 61000 0 (startTimer 1000 (Some ''A'') (Some ''1'') (constructor 0 None None)))
     = [Notification ''Time's up!'' ''A timer has completed.'',
        InformationMessage ''A timer has completed.'']"
  by code_simp

section \<open>The snapshot after an expiry\<close>

text \<open>No tick, of either kind and in either branch, writes to the store.\<close>

lemma tick_keeps_snapshot:
  "activeTimersKey (tick now h s) = activeTimersKey s"
  "tasksKey (tick now h s) = tasksKey s"
  by (simp_all add: tick_def startedTick_def restoredTick_def Let_def
      split: option.splits callback.splits)

text \<open>
  Claim C2 says that every mutation of the lists rewrites the persisted snapshot, the
  removal at expiry included. The expiry branch of the tick calls \<open>updateStatusBar\<close>,
  not \<open>updateViews\<close>: after a timer \<open>Build\<close> created at time 0 for one minute expires
  at time 60000 the active list is empty, while the stored \<open>activeTimers\<close> entry still
  holds \<open>{label: Build, endTime: 60000}\<close> and so differs from the projection of the
  active list.
\<close>

theorem expiry_leaves_snapshot_stale:
  "timers (tick 60000 0 (startTimer 0 (Some ''Build'') (Some ''1'') (constructor 0 None None))) = []
   \<and> activeTimersKey (tick 60000 0 (startTimer 0 (Some ''Build'') (Some ''1'') (constructor 0 None None)))
     = Some [\<lparr>label = ''Build'', endTime = 60000\<rparr>]
   \<and> activeTimersKey (tick 60000 0 (startTimer 0 (Some ''Build'') (Some ''1'') (constructor 0 None None)))
     \<noteq> Some (map serialize
          (timers (tick 60000 0 (startTimer 0 (Some ''Build'') (Some ''1'') (constructor 0 None None)))))"
  by code_simp

section \<open>Every reachable state is consistent\<close>

lemma distinct_map_sort_key:
  "distinct (map f (sort_key k xs)) = distinct (map f xs)"
proof -
  have "mset (map f (sort_key k xs)) = mset (map f xs)" by simp
  then show ?thesis by (rule mset_eq_imp_distinct_iff)
qed

lemma label_serialize: "map label (map serialize ts) = map label ts"
  by simp

lemma startedTimersListed_iff:
  "startedTimersListed s \<longleftrightarrow>
     (\<forall>h l e. (h, StartedTick l e) \<in> set (intervals s)
        \<longrightarrow> \<lparr>label = l, endTime = e, timerInterval = h\<rparr> \<in> set (timers s))"
  unfolding startedTimersListed_def list_all_iff
  by (auto split: callback.splits)

lemma handlesAllocated_iff:
  "handlesAllocated s \<longleftrightarrow>
     (\<forall>t \<in> set (timers s). timerInterval t < nextHandle s)
     \<and> (\<forall>p \<in> set (intervals s). fst p < nextHandle s)"
  by (simp add: handlesAllocated_def list_all_iff)

text \<open>The three properties read four fields only.\<close>

lemma consistent_cong:
  assumes "set (timers s') = set (timers s)"
    and "distinct (map label (timers s')) = distinct (map label (timers s))"
    and "activeTimersKey s' = activeTimersKey s \<or> activeTimersKey s' = Some (map serialize (timers s'))"
    and "intervals s' = intervals s" and "nextHandle s' = nextHandle s"
    and "consistent s"
  shows "consistent s'"
proof -
  from assms(6) have d: "distinct (map label (timers s))"
    by (simp add: consistent_def labelsDistinct_def)
  have "labelsDistinct s'"
    using assms(3)
  proof
    assume "activeTimersKey s' = activeTimersKey s"
    with assms(2,6) show ?thesis by (simp add: consistent_def labelsDistinct_def)
  next
    assume "activeTimersKey s' = Some (map serialize (timers s'))"
    with assms(2) d show ?thesis by (simp add: labelsDistinct_def comp_def)
  qed
  moreover have "startedTimersListed s'"
    using assms(1,4,6) by (simp add: consistent_def startedTimersListed_iff)
  moreover have "handlesAllocated s'"
    using assms(1,4,5,6) by (simp add: consistent_def handlesAllocated_iff)
  ultimately show ?thesis by (simp add: consistent_def)
qed

lemma updateStatusBar_consistent: "consistent s \<Longrightarrow> consistent (updateStatusBar now s)"
  by (rule consistent_cong [of _ s]) (simp_all add: distinct_map_sort_key)

lemma updateViews_consistent: "consistent s \<Longrightarrow> consistent (updateViews now s)"
  by (rule consistent_cong [of _ s]) (simp_all add: distinct_map_sort_key)

lemma sendDataToWebview_consistent: "consistent s \<Longrightarrow> consistent (sendDataToWebview now s)"
  by (rule consistent_cong [of _ s]) simp_all

lemma emit_consistent: "consistent s \<Longrightarrow> consistent (emit out s)"
  by (rule consistent_cong [of _ s]) simp_all

lemma tasks_update_consistent: "consistent s \<Longrightarrow> consistent (s\<lparr>tasks := ts\<rparr>)"
  by (rule consistent_cong [of _ s]) simp_all

lemma task_ops_consistent:
  assumes "consistent s"
  shows "consistent (addTask now d s)" "consistent (editTask now i d' s)"
    "consistent (toggleTask now i s)" "consistent (deleteTask now i s)"
  using assms
  by (auto simp: addTask_def editTask_def toggleTask_def deleteTask_def
      intro!: updateViews_consistent tasks_update_consistent split: option.splits)

lemma consistentI:
  assumes "distinct (map label (timers s))"
    and "\<And>st. activeTimersKey s = Some st \<Longrightarrow> distinct (map label st)"
    and "\<And>h l e. (h, StartedTick l e) \<in> set (intervals s)
           \<Longrightarrow> \<lparr>label = l, endTime = e, timerInterval = h\<rparr> \<in> set (timers s)"
    and "\<And>t. t \<in> set (timers s) \<Longrightarrow> timerInterval t < nextHandle s"
    and "\<And>p. p \<in> set (intervals s) \<Longrightarrow> fst p < nextHandle s"
  shows "consistent s"
  using assms
  by (auto simp: consistent_def labelsDistinct_def startedTimersListed_iff handlesAllocated_iff
      split: option.splits)

lemma consistentD:
  assumes "consistent s"
  shows "distinct (map label (timers s))"
    and "activeTimersKey s = Some st \<Longrightarrow> distinct (map label st)"
    and "(h, StartedTick l e) \<in> set (intervals s)
           \<Longrightarrow> \<lparr>label = l, endTime = e, timerInterval = h\<rparr> \<in> set (timers s)"
    and "t \<in> set (timers s) \<Longrightarrow> timerInterval t < nextHandle s"
    and "p \<in> set (intervals s) \<Longrightarrow> fst p < nextHandle s"
  using assms
  by (auto simp: consistent_def labelsDistinct_def startedTimersListed_iff handlesAllocated_iff
      split: option.splits)

text \<open>Two listed timers with one label are one timer.\<close>

lemma same_label_same_timer:
  assumes "distinct (map label ts)" "t \<in> set ts" "u \<in> set ts" "label t = label u"
  shows "t = u"
  using assms by (meson distinct_map inj_onD)

lemma push_started_consistent:
  assumes "consistent s" and "l \<notin> label ` set (timers s)"
  shows "consistent ((setInterval (StartedTick l e) s)
            \<lparr>timers := timers s @ [\<lparr>label = l, endTime = e, timerInterval = nextHandle s\<rparr>]\<rparr>)"
proof (rule consistentI)
  let ?s' = "(setInterval (StartedTick l e) s)
            \<lparr>timers := timers s @ [\<lparr>label = l, endTime = e, timerInterval = nextHandle s\<rparr>]\<rparr>"
  show "distinct (map label (timers ?s'))"
    using consistentD(1) [OF assms(1)] assms(2) by simp
  show "distinct (map label st)" if "activeTimersKey ?s' = Some st" for st
    using that consistentD(2) [OF assms(1), of st] by simp
  show "\<lparr>label = l', endTime = e', timerInterval = h\<rparr> \<in> set (timers ?s')"
    if "(h, StartedTick l' e') \<in> set (intervals ?s')" for h l' e'
    using that consistentD(3) [OF assms(1), of h l' e'] by auto
  show "timerInterval t < nextHandle ?s'" if "t \<in> set (timers ?s')" for t
    using that consistentD(4) [OF assms(1), of t] by auto
  show "fst p < nextHandle ?s'" if "p \<in> set (intervals ?s')" for p
    using that consistentD(5) [OF assms(1), of p] by auto
qed

lemma dedupLabel_fresh: "dedupLabel ts l \<notin> label ` set ts"
proof -
  from dedupLabel_least [of ts l] obtain k where
    "dedupLabel ts l = l @ replicate k (CHR ''*'')"
    "l @ replicate k (CHR ''*'') \<notin> label ` set ts" by blast
  then show ?thesis by simp
qed

lemma startTimer_consistent:
  assumes "consistent s"
  shows "consistent (startTimer now li mi s)"
proof -
  have "consistent (updateViews now
          ((setInterval (StartedTick (dedupLabel (timers s) l) e) s)
            \<lparr>timers := timers s @ [\<lparr>label = dedupLabel (timers s) l, endTime = e,
                                    timerInterval = nextHandle s\<rparr>]\<rparr>))" for l e
    by (intro updateViews_consistent push_started_consistent assms dedupLabel_fresh)
  then show ?thesis
    using assms by (simp add: startTimer_def Let_def split: option.splits)
qed

text \<open>Removing the timers labelled \<open>l\<close> together with the interval of the one listed.\<close>

lemma remove_label_consistent:
  assumes "consistent s" and "tm \<in> set (timers s)" and "label tm = l"
  shows "consistent ((emit out (clearInterval (timerInterval tm) s))
            \<lparr>timers := filter (\<lambda>t. label t \<noteq> l) (timers s)\<rparr>)"
proof (rule consistentI)
  let ?s' = "(emit out (clearInterval (timerInterval tm) s))
            \<lparr>timers := filter (\<lambda>t. label t \<noteq> l) (timers s)\<rparr>"
  show "distinct (map label (timers ?s'))"
    using consistentD(1) [OF assms(1)] by (simp add: distinct_map_filter)
  show "distinct (map label st)" if "activeTimersKey ?s' = Some st" for st
    using that consistentD(2) [OF assms(1), of st] by simp
  show "\<lparr>label = l', endTime = e', timerInterval = h\<rparr> \<in> set (timers ?s')"
    if "(h, StartedTick l' e') \<in> set (intervals ?s')" for h l' e'
  proof -
    from that have reg: "(h, StartedTick l' e') \<in> set (intervals s)" and h: "h \<noteq> timerInterval tm"
      by auto
    from consistentD(3) [OF assms(1) reg]
    have listed: "\<lparr>label = l', endTime = e', timerInterval = h\<rparr> \<in> set (timers s)" .
    have "l' \<noteq> l"
    proof
      assume "l' = l"
      with same_label_same_timer [OF consistentD(1) [OF assms(1)] listed assms(2)] assms(3)
      have "\<lparr>label = l', endTime = e', timerInterval = h\<rparr> = tm" by simp
      then have "h = timerInterval tm" by auto
      with h show False by simp
    qed
    with listed show ?thesis by simp
  qed
  show "timerInterval t < nextHandle ?s'" if "t \<in> set (timers ?s')" for t
    using that consistentD(4) [OF assms(1), of t] by auto
  show "fst p < nextHandle ?s'" if "p \<in> set (intervals ?s')" for p
    using that consistentD(5) [OF assms(1), of p] by auto
qed

lemma stopTimer_consistent:
  assumes "consistent s"
  shows "consistent (stopTimer now l s)"
proof (cases "find (\<lambda>t. label t = l) (timers s)")
  case None
  then show ?thesis using assms by (simp add: stopTimer_def emit_consistent)
next
  case (Some tm)
  then have tm: "tm \<in> set (timers s)" "label tm = l"
    by (auto simp: find_Some_iff)
  from remove_label_consistent [OF assms tm]
  show ?thesis using Some by (simp add: stopTimer_def Let_def updateViews_consistent)
qed

lemma fold_clearInterval_fields [simp]:
  "timers (fold (\<lambda>t. clearInterval (timerInterval t)) ts s) = timers s"
  "activeTimersKey (fold (\<lambda>t. clearInterval (timerInterval t)) ts s) = activeTimersKey s"
  "nextHandle (fold (\<lambda>t. clearInterval (timerInterval t)) ts s) = nextHandle s"
  "intervals (fold (\<lambda>t. clearInterval (timerInterval t)) ts s) =
     filter (\<lambda>p. fst p \<notin> timerInterval ` set ts) (intervals s)"
  by (induction ts arbitrary: s) (auto intro: filter_cong)

lemma clearTimers_consistent:
  assumes "consistent s"
  shows "consistent (clearTimers now s)"
proof -
  let ?s4 = "emit (InformationMessage ''All timers cleared.'')
      ((fold (\<lambda>t. clearInterval (timerInterval t)) (timers s) s)
         \<lparr>timers := [], activeTimersKey := Some []\<rparr>)"
  have "consistent ?s4"
  proof (rule consistentI)
    show "\<lparr>label = l, endTime = e, timerInterval = h\<rparr> \<in> set (timers ?s4)"
      if "(h, StartedTick l e) \<in> set (intervals ?s4)" for h l e
    proof -
      from that have reg: "(h, StartedTick l e) \<in> set (intervals s)"
        and h: "h \<notin> timerInterval ` set (timers s)" by auto
      from consistentD(3) [OF assms reg] have "h \<in> timerInterval ` set (timers s)"
        by force
      with h show ?thesis by simp
    qed
    show "fst p < nextHandle ?s4" if "p \<in> set (intervals ?s4)" for p
      using that consistentD(5) [OF assms, of p] by auto
  qed simp_all
  then show ?thesis
    by (simp add: clearTimers_def Let_def updateViews_consistent)
qed

lemma registered_in_intervals:
  "map_of (intervals s) h = Some cb \<Longrightarrow> (h, cb) \<in> set (intervals s)"
  by (rule map_of_SomeD)

lemma startedTick_consistent:
  assumes "consistent s" and "map_of (intervals s) h = Some (StartedTick l e)"
  shows "consistent (startedTick now h l e s)"
proof (cases "e - now \<le> 0")
  case False
  then show ?thesis using assms(1) by (simp add: startedTick_def updateStatusBar_consistent)
next
  case True
  let ?tm = "\<lparr>label = l, endTime = e, timerInterval = h\<rparr>"
  have tm: "?tm \<in> set (timers s)"
    using consistentD(3) [OF assms(1) registered_in_intervals [OF assms(2)]] .
  let ?s4 = "(emit (InformationMessage (l @ '' timer has completed.''))
               (emit (Notification ''Time's up!'' (l @ '' timer has completed.''))
                 (clearInterval h s)))
             \<lparr>timers := filter (\<lambda>t. label t \<noteq> l) (timers s)\<rparr>"
  from remove_label_consistent [OF assms(1) tm, of l "InformationMessage []"]
  have "consistent ((emit (InformationMessage []) (clearInterval h s))
            \<lparr>timers := filter (\<lambda>t. label t \<noteq> l) (timers s)\<rparr>)" by simp
  then have "consistent ?s4"
    by (rule consistent_cong [rotated 5]) simp_all
  then show ?thesis
    using True by (simp add: startedTick_def Let_def updateStatusBar_consistent)
qed

lemma clearInterval_consistent:
  assumes "consistent s"
  shows "consistent (clearInterval h (s::state))"
proof (rule consistentI)
  show "distinct (map label (timers (clearInterval h s)))"
    using consistentD(1) [OF assms] by simp
  show "distinct (map label st)" if "activeTimersKey (clearInterval h s) = Some st" for st
    using that consistentD(2) [OF assms, of st] by simp
  show "\<lparr>label = l, endTime = e, timerInterval = h'\<rparr> \<in> set (timers (clearInterval h s))"
    if "(h', StartedTick l e) \<in> set (intervals (clearInterval h s))" for h' l e
    using that consistentD(3) [OF assms, of h' l e] by simp
  show "timerInterval t < nextHandle (clearInterval h s)"
    if "t \<in> set (timers (clearInterval h s))" for t
    using that consistentD(4) [OF assms, of t] by simp
  show "fst p < nextHandle (clearInterval h s)" if "p \<in> set (intervals (clearInterval h s))" for p
    using that consistentD(5) [OF assms, of p] by simp
qed

lemma tick_consistent:
  assumes "consistent s"
  shows "consistent (tick now h s)"
proof (cases "map_of (intervals s) h")
  case None
  then show ?thesis using assms by (simp add: tick_def)
next
  case (Some cb)
  show ?thesis
  proof (cases cb)
    case (StartedTick l e)
    with Some startedTick_consistent [OF assms, of h l e now] show ?thesis
      by (simp add: tick_def)
  next
    case (RestoredTick tm)
    with Some assms show ?thesis
      by (simp add: tick_def restoredTick_def clearInterval_consistent)
  qed
qed

lemma step_consistent: "consistent s \<Longrightarrow> consistent (step now ev s)"
proof (cases ev)
  case ResolveWebviewView
  assume "consistent s"
  then have "consistent (s\<lparr>webviewView := True\<rparr>)"
    by (rule consistent_cong [rotated 5]) simp_all
  with ResolveWebviewView show ?thesis by simp
qed (simp_all add: startTimer_consistent stopTimer_consistent clearTimers_consistent
    task_ops_consistent sendDataToWebview_consistent tick_consistent)

lemma restoreTimer_fields [simp]:
  "activeTimersKey (restoreTimer now tm s) = activeTimersKey s"
  "tasksKey (restoreTimer now tm s) = tasksKey s"
  by (simp_all add: restoreTimer_def Let_def)

lemma restoreTimer_consistent:
  assumes "consistent s" and "label tm \<notin> label ` set (timers s) \<or> endTime tm \<le> now"
  shows "consistent (restoreTimer now tm s)"
proof (cases "endTime tm - now \<le> 0")
  case True
  then show ?thesis using assms(1) by (simp add: restoreTimer_def emit_consistent)
next
  case False
  with assms(2) have fresh: "label tm \<notin> label ` set (timers s)" by simp
  let ?s' = "(setInterval (RestoredTick tm) s)
      \<lparr>timers := timers s @ [\<lparr>label = label tm, endTime = endTime tm, timerInterval = nextHandle s\<rparr>]\<rparr>"
  have "consistent ?s'"
  proof (rule consistentI)
    show "distinct (map label (timers ?s'))"
      using consistentD(1) [OF assms(1)] fresh by simp
    show "distinct (map label st)" if "activeTimersKey ?s' = Some st" for st
      using that consistentD(2) [OF assms(1), of st] by simp
    show "\<lparr>label = l, endTime = e, timerInterval = h\<rparr> \<in> set (timers ?s')"
      if "(h, StartedTick l e) \<in> set (intervals ?s')" for h l e
      using that consistentD(3) [OF assms(1), of h l e] by auto
    show "timerInterval t < nextHandle ?s'" if "t \<in> set (timers ?s')" for t
      using that consistentD(4) [OF assms(1), of t] by auto
    show "fst p < nextHandle ?s'" if "p \<in> set (intervals ?s')" for p
      using that consistentD(5) [OF assms(1), of p] by auto
  qed
  with False show ?thesis by (simp add: restoreTimer_def Let_def)
qed

lemma restoreTimer_map_label:
  "map label (timers (restoreTimer now tm s)) =
     map label (timers s) @ (if endTime tm > now then [label tm] else [])"
  by (simp add: restoreTimer_def Let_def)

lemma restoreTimer_labels:
  "label ` set (timers (restoreTimer now tm s)) \<subseteq> insert (label tm) (label ` set (timers s))"
proof -
  have "set (map label (timers (restoreTimer now tm s)))
      \<subseteq> insert (label tm) (set (map label (timers s)))"
    unfolding restoreTimer_map_label by (cases "endTime tm > now") auto
  then show ?thesis by simp
qed

lemma fold_restoreTimer_consistent:
  assumes "consistent s" and "distinct (map label st)"
    and "\<forall>x \<in> set st. label x \<notin> label ` set (timers s)"
  shows "consistent (fold (restoreTimer now) st s)"
  using assms
proof (induction st arbitrary: s)
  case Nil
  then show ?case by simp
next
  case (Cons tm st)
  from Cons.prems(3) have fresh: "label tm \<notin> label ` set (timers s)"
    by simp
  then have step: "consistent (restoreTimer now tm s)"
    using Cons.prems(1) by (intro restoreTimer_consistent disjI1)
  from Cons.prems(2) have a: "label tm \<notin> label ` set st" and d: "distinct (map label st)"
    by simp_all
  have "\<forall>x \<in> set st. label x \<notin> label ` set (timers (restoreTimer now tm s))"
  proof
    fix x assume x: "x \<in> set st"
    with a have ne: "label x \<noteq> label tm" by (metis image_eqI)
    from Cons.prems(3) x have old: "label x \<notin> label ` set (timers s)" by simp
    show "label x \<notin> label ` set (timers (restoreTimer now tm s))"
    proof
      assume "label x \<in> label ` set (timers (restoreTimer now tm s))"
      with restoreTimer_labels [of now tm s]
      have "label x \<in> insert (label tm) (label ` set (timers s))" by (rule subsetD)
      with ne old show False by simp
    qed
  qed
  with Cons.IH [OF step d] show ?case by simp
qed

lemma constructor_consistent:
  assumes "\<And>st. storedTimers = Some st \<Longrightarrow> distinct (map label st)"
  shows "consistent (constructor now storedTimers storedTasks)"
proof -
  define st where "st = (case storedTimers of None \<Rightarrow> [] | Some ts \<Rightarrow> ts)"
  have d: "distinct (map label st)"
    using assms by (simp add: st_def split: option.splits)
  define s1 where "s1 = (initializeStatusBar now
      \<lparr>timers = [], tasks = [], webviewView = False,
       timerStatusBarText = [], taskStatusBarText = [],
       activeTimersKey = Some st,
       tasksKey = (case storedTasks of None \<Rightarrow> Some [] | Some ts \<Rightarrow> Some ts),
       intervals = [], nextHandle = 0, outputs = []\<rparr>)\<lparr>timers := []\<rparr>"
  have f: "timers s1 = []" "activeTimersKey s1 = Some st" "intervals s1 = []"
    by (simp_all add: s1_def initializeStatusBar_def)
  have "consistent s1"
    by (rule consistentI) (use f d in simp_all)
  then have "consistent (fold (restoreTimer now) st s1)"
    using d f(1) by (intro fold_restoreTimer_consistent) simp_all
  then have "consistent (restoreTimers now (initializeStatusBar now
      \<lparr>timers = [], tasks = [], webviewView = False,
       timerStatusBarText = [], taskStatusBarText = [],
       activeTimersKey = Some st,
       tasksKey = (case storedTasks of None \<Rightarrow> Some [] | Some ts \<Rightarrow> Some ts),
       intervals = [], nextHandle = 0, outputs = []\<rparr>))"
    by (simp add: restoreTimers_def Let_def s1_def initializeStatusBar_def
        updateStatusBar_consistent)
  then have "consistent (restoreTasks (restoreTimers now (initializeStatusBar now
      \<lparr>timers = [], tasks = [], webviewView = False,
       timerStatusBarText = [], taskStatusBarText = [],
       activeTimersKey = Some st,
       tasksKey = (case storedTasks of None \<Rightarrow> Some [] | Some ts \<Rightarrow> Some ts),
       intervals = [], nextHandle = 0, outputs = []\<rparr>)))"
    unfolding restoreTasks_def by (rule tasks_update_consistent)
  moreover have "(case storedTimers of None \<Rightarrow> Some [] | Some ts \<Rightarrow> Some ts) = Some st"
    by (simp add: st_def split: option.splits)
  ultimately show ?thesis
    by (simp add: constructor_def Let_def)
qed

lemma reachable_consistent: "reachable s \<Longrightarrow> consistent s"
proof (induction rule: reachable.induct)
  case (activate now)
  show ?case by (rule constructor_consistent) simp
next
  case (event s now e)
  then show ?case by (simp add: step_consistent)
next
  case (restart s now)
  show ?case
    by (rule constructor_consistent) (rule consistentD(2) [OF restart.IH])
qed

lemma started_Build_reachable:
  "reachable (step 0 (StartTimer (Some ''Build'') (Some ''1'')) (constructor 0 None None))"
  by (rule reachable.event [OF reachable.activate])

section \<open>Persisting and restoring the timer list\<close>

text \<open>
  The snapshot is written in three places: as the empty list by the constructor and by
  \<open>clearTimers\<close>, and by \<open>updateViews\<close>, which serializes \<open>this.timers\<close> right
  after \<open>updateStatusBar\<close> has sorted it. \<open>restoreTimers\<close> ends with
  \<open>updateStatusBar\<close> too; on a snapshot in ascending \<open>endTime\<close> order that sort
  changes nothing.
\<close>

lemma fold_restoreTimer_key [simp]:
  "activeTimersKey (fold (restoreTimer now) st s) = activeTimersKey s"
  by (induction st arbitrary: s) simp_all

lemma restoreTimers_key [simp]:
  "activeTimersKey (restoreTimers now s) = activeTimersKey s"
  by (simp add: restoreTimers_def Let_def)

lemma restoreTimers_of_key:
  assumes "activeTimersKey s = Some st"
  shows "map serialize (timers (restoreTimers now s)) =
           sort_key endTime (filter (\<lambda>e. endTime e > now) st)"
proof -
  have "s\<lparr>activeTimersKey := Some st\<rparr> = s"
    using assms by simp
  with restoreTimers_serialized [where now = now and p = s and st = st] show ?thesis by simp
qed

lemma constructor_key:
  "activeTimersKey (constructor now storedTimers storedTasks) =
     Some (case storedTimers of None \<Rightarrow> [] | Some ts \<Rightarrow> ts)"
  by (simp add: constructor_def restoreTasks_def initializeStatusBar_def Let_def
      split: option.splits)

lemma constructor_serialized:
  "map serialize (timers (constructor now (Some st) storedTasks)) =
     sort_key endTime (filter (\<lambda>e. endTime e > now) st)"
  by (simp add: constructor_def restoreTasks_def initializeStatusBar_def Let_def
      restoreTimers_of_key)

text \<open>Every write of the snapshot stores a list in ascending \<open>endTime\<close> order.\<close>

lemma step_snapshot:
  "activeTimersKey (step now ev s) = activeTimersKey s
   \<or> (case activeTimersKey (step now ev s) of
         None \<Rightarrow> False | Some st \<Rightarrow> sorted (map endTime st))"
proof (cases ev)
  case (StartTimer li mi)
  then show ?thesis
    by (simp add: startTimer_def Let_def comp_def split: option.splits)
next
  case (StopTimer l)
  then show ?thesis
    by (simp add: stopTimer_def Let_def comp_def split: option.splits)
next
  case ClearTimers
  then show ?thesis by (simp add: clearTimers_def Let_def comp_def)
next
  case (AddTask d)
  then show ?thesis by (simp add: addTask_def comp_def split: option.splits)
next
  case (EditTask i d)
  then show ?thesis by (simp add: editTask_def comp_def)
next
  case (ToggleTask i)
  then show ?thesis by (simp add: toggleTask_def comp_def)
next
  case (DeleteTask i)
  then show ?thesis by (simp add: deleteTask_def comp_def)
next
  case (Tick h)
  then show ?thesis by (simp add: tick_keeps_snapshot)
qed simp_all

lemma reachable_snapshot_ascending:
  "reachable s \<Longrightarrow> activeTimersKey s = Some st \<Longrightarrow> sorted (map endTime st)"
proof (induction arbitrary: st rule: reachable.induct)
  case (activate now)
  then show ?case by (simp add: constructor_key)
next
  case (event s now e)
  from step_snapshot [of now e s] show ?case
  proof
    assume "activeTimersKey (step now e s) = activeTimersKey s"
    with event show ?thesis by simp
  next
    assume "case activeTimersKey (step now e s) of
         None \<Rightarrow> False | Some st \<Rightarrow> sorted (map endTime st)"
    with event.prems show ?thesis by simp
  qed
next
  case (restart s now)
  then show ?case
    by (cases "activeTimersKey s") (simp_all add: constructor_key)
qed

text \<open>
  Claim C3. Round trip: \<open>updateViews\<close> serializes the active timer list to its
  \<open>{label, endTime}\<close> projection, and \<open>restoreTimers\<close> run at time \<open>t\<close> on that
  snapshot (in any provider state \<open>p\<close>) rebuilds exactly the entries with
  \<open>endTime > t\<close>, with the same labels and end times and in the same order; no entry
  with \<open>endTime \<le> t\<close> is in the restored list. The same holds for the snapshot that
  any reachable state holds: a provider constructed on it at time \<open>t\<close> has exactly the
  snapshot's entries with \<open>endTime > t\<close>, in the snapshot's order.
\<close>

theorem persisted_timers_roundtrip:
  "activeTimersKey (updateViews now s) = Some (map serialize (timers (updateViews now s)))
   \<and> map serialize (timers (restoreTimers t (p\<lparr>activeTimersKey := activeTimersKey (updateViews now s)\<rparr>)))
       = map serialize (filter (\<lambda>tm. endTime tm > t) (timers (updateViews now s)))
   \<and> list_all (\<lambda>tm. endTime tm > t)
        (timers (restoreTimers t (p\<lparr>activeTimersKey := activeTimersKey (updateViews now s)\<rparr>)))
   \<and> (reachable r \<and> activeTimersKey r = Some st \<longrightarrow>
        map serialize (timers (constructor t (activeTimersKey r) (tasksKey r)))
          = filter (\<lambda>e. endTime e > t) st)"
proof -
  let ?L = "timers (updateViews now s)"
  let ?r = "restoreTimers t (p\<lparr>activeTimersKey := activeTimersKey (updateViews now s)\<rparr>)"
  have key: "activeTimersKey (updateViews now s) = Some (map serialize ?L)" by simp
  have "sorted (map endTime ?L)" by simp
  then have "sorted (map endTime (filter (\<lambda>tm. endTime tm > t) ?L))"
    by (simp add: sorted_filter)
  then have id: "sort_key endTime (filter (\<lambda>tm. endTime tm > t) ?L) = filter (\<lambda>tm. endTime tm > t) ?L"
    by (rule sort_key_id_if_sorted)
  have "map serialize (timers ?r) = sort_key endTime (filter (\<lambda>e. endTime e > t) (map serialize ?L))"
    unfolding key by (rule restoreTimers_serialized)
  also have "\<dots> = map serialize (sort_key endTime (filter (\<lambda>tm. endTime tm > t) ?L))"
    by (simp only: filter_serialize serialize_sort_key)
  finally have eq: "map serialize (timers ?r) = map serialize (filter (\<lambda>tm. endTime tm > t) ?L)"
    using id by simp
  have "\<forall>e \<in> set (map serialize (timers ?r)). endTime e > t"
    unfolding eq by auto
  then have dropped: "list_all (\<lambda>tm. endTime tm > t) (timers ?r)"
    by (simp add: list_all_iff)
  have restart: "map serialize (timers (constructor t (activeTimersKey r) (tasksKey r)))
      = filter (\<lambda>e. endTime e > t) st"
    if "reachable r \<and> activeTimersKey r = Some st"
  proof -
    from that have asc: "sorted (map endTime st)"
      using reachable_snapshot_ascending by blast
    then have "sorted (map endTime (filter (\<lambda>e. endTime e > t) st))"
      by (simp add: sorted_filter)
    then have "sort_key endTime (filter (\<lambda>e. endTime e > t) st) = filter (\<lambda>e. endTime e > t) st"
      by (rule sort_key_id_if_sorted)
    with that show ?thesis by (simp add: constructor_serialized)
  qed
  from key eq dropped restart show ?thesis by blast
qed

theorem persisted_timers_roundtrip_witness:
  "map serialize (timers (restoreTimers 100000 ((constructor 100000 None None)
       \<lparr>activeTimersKey := activeTimersKey (updateViews 10 ((constructor 0 None None)
          \<lparr>timers := [\<lparr>label = ''A'', endTime = 120000, timerInterval = 0\<rparr>,
                      \<lparr>label = ''B'', endTime = 60005, timerInterval = 1\<rparr>]\<rparr>))\<rparr>)))
     = [\<lparr>label = ''A'', endTime = 120000\<rparr>]
   \<and> map serialize (timers (restoreTimers 20 ((constructor 20 None None)
       \<lparr>activeTimersKey := activeTimersKey (updateViews 10 ((constructor 0 None None)
          \<lparr>timers := [\<lparr>label = ''A'', endTime = 120000, timerInterval = 0\<rparr>,
                      \<lparr>label = ''B'', endTime = 60005, timerInterval = 1\<rparr>]\<rparr>))\<rparr>)))
     = [\<lparr>label = ''B'', endTime = 60005\<rparr>, \<lparr>label = ''A'', endTime = 120000\<rparr>]
   \<and> map serialize (timers (constructor 1000
         (activeTimersKey (step 0 (StartTimer (Some ''Build'') (Some ''1'')) (constructor 0 None None)))
         (tasksKey (step 0 (StartTimer (Some ''Build'') (Some ''1'')) (constructor 0 None None)))))
     = [\<lparr>label = ''Build'', endTime = 60000\<rparr>]"
proof -
  let ?S = "step 0 (StartTimer (Some ''Build'') (Some ''1'')) (constructor 0 None None)"
  let ?U = "(constructor 0 None None)
          \<lparr>timers := [\<lparr>label = ''A'', endTime = 120000, timerInterval = 0\<rparr>,
                      \<lparr>label = ''B'', endTime = 60005, timerInterval = 1\<rparr>]\<rparr>"
  have reach: "reachable ?S"
    by (rule reachable.event [OF reachable.activate])
  have snap: "reachable ?S \<and> activeTimersKey ?S = Some [\<lparr>label = ''Build'', endTime = 60000\<rparr>]"
    using reach by (simp add: started_Build)
  note late = persisted_timers_roundtrip [where now = 10 and s = ?U and t = 100000
      and p = "constructor 100000 None None", THEN conjunct2, THEN conjunct1]
  note early = persisted_timers_roundtrip [where now = 10 and s = ?U and t = 20
      and p = "constructor 20 None None", THEN conjunct2, THEN conjunct1]
  note again = persisted_timers_roundtrip [where r = ?S and t = 1000
      and st = "[\<lparr>label = ''Build'', endTime = 60000\<rparr>]",
      THEN conjunct2, THEN conjunct2, THEN conjunct2, rule_format, OF snap]
  have "map serialize (timers (restoreTimers 100000 ((constructor 100000 None None)
       \<lparr>activeTimersKey := activeTimersKey (updateViews 10 ?U)\<rparr>)))
     = [\<lparr>label = ''A'', endTime = 120000\<rparr>]"
    using late by (simp add: serialize_def)
  moreover have "map serialize (timers (restoreTimers 20 ((constructor 20 None None)
       \<lparr>activeTimersKey := activeTimersKey (updateViews 10 ?U)\<rparr>)))
     = [\<lparr>label = ''B'', endTime = 60005\<rparr>, \<lparr>label = ''A'', endTime = 120000\<rparr>]"
    using early by (simp add: serialize_def)
  moreover have "map serialize (timers (constructor 1000 (activeTimersKey ?S) (tasksKey ?S)))
     = [\<lparr>label = ''Build'', endTime = 60000\<rparr>]"
    using again by simp
  ultimately show ?thesis by (intro conjI)
qed

section \<open>Distinct labels and the removal of one timer\<close>

lemma remove_by_key_one:
  assumes "distinct (map f xs)" and "x \<in> set xs"
  shows "mset xs = add_mset x (mset (filter (\<lambda>y. f y \<noteq> f x) xs))"
  using assms
proof (induction xs)
  case Nil
  then show ?case by simp
next
  case (Cons a xs)
  show ?case
  proof (cases "a = x")
    case True
    from Cons.prems(1) have "\<forall>y \<in> set xs. f y \<noteq> f a"
      by (metis distinct.simps(2) image_eqI list.simps(9) set_map)
    then have "filter (\<lambda>y. f y \<noteq> f a) xs = xs"
      by (simp add: filter_id_conv)
    with True show ?thesis by simp
  next
    case False
    with Cons.prems(2) have x: "x \<in> set xs" by simp
    from Cons.prems(1) x have "f a \<noteq> f x"
      by (metis distinct.simps(2) image_eqI list.simps(9) set_map)
    moreover from Cons.IH x Cons.prems(1)
    have "mset xs = add_mset x (mset (filter (\<lambda>y. f y \<noteq> f x) xs))" by simp
    ultimately show ?thesis by simp
  qed
qed

lemma stopTimer_found:
  assumes "find (\<lambda>t. label t = l) (timers s) = Some tm"
  shows "timers (stopTimer now l s) = sort_key endTime (filter (\<lambda>t. label t \<noteq> l) (timers s))"
    and "intervals (stopTimer now l s) = filter (\<lambda>p. fst p \<noteq> timerInterval tm) (intervals s)"
    and "nextHandle (stopTimer now l s) = nextHandle s"
    and "tm \<in> set (timers s)" and "label tm = l"
proof -
  show "timers (stopTimer now l s) = sort_key endTime (filter (\<lambda>t. label t \<noteq> l) (timers s))"
    "intervals (stopTimer now l s) = filter (\<lambda>p. fst p \<noteq> timerInterval tm) (intervals s)"
    "nextHandle (stopTimer now l s) = nextHandle s"
    using assms by (simp_all add: stopTimer_def Let_def)
  show "tm \<in> set (timers s)" "label tm = l"
    using assms by (auto simp: find_Some_iff)
qed

lemma stopTimer_not_found:
  assumes "find (\<lambda>t. label t = l) (timers s) = None"
  shows "timers (stopTimer now l s) = timers s"
    and "intervals (stopTimer now l s) = intervals s"
    and "nextHandle (stopTimer now l s) = nextHandle s"
  using assms by (simp_all add: stopTimer_def)

lemma startedTick_expired:
  assumes "e - now \<le> 0"
  shows "timers (startedTick now h l e s) = sort_key endTime (filter (\<lambda>t. label t \<noteq> l) (timers s))"
    and "intervals (startedTick now h l e s) = filter (\<lambda>p. fst p \<noteq> h) (intervals s)"
  using assms by (simp_all add: startedTick_def Let_def)

text \<open>
  Claim C10. In every state reachable from a first activation by commands, panel messages,
  ticks and restarts of the editor (a restart runs the constructor, and with it
  \<open>restoreTimers\<close>, on the snapshot the program left), the labels of the active timers
  are pairwise distinct. Consequently \<open>stopTimer\<close> on a label that is found removes
  exactly the one timer found, and the expiry of a tick registered by \<open>startTimer\<close>
  removes exactly one timer, which carries the label and the handle of that tick.
\<close>

theorem active_labels_pairwise_distinct:
  assumes "reachable s"
  shows "distinct (map label (timers s))
    \<and> (\<forall>l tm. find (\<lambda>t. label t = l) (timers s) = Some tm \<longrightarrow>
          label tm = l \<and> mset (timers s) = add_mset tm (mset (timers (stopTimer now l s))))
    \<and> (\<forall>h l e. map_of (intervals s) h = Some (StartedTick l e) \<and> e - now \<le> 0 \<longrightarrow>
          (\<exists>tm. label tm = l \<and> timerInterval tm = h
              \<and> mset (timers s) = add_mset tm (mset (timers (tick now h s)))))"
proof (intro conjI allI impI)
  have c: "consistent s" using assms by (rule reachable_consistent)
  then show d: "distinct (map label (timers s))" by (rule consistentD(1))
  {
    fix l tm assume found: "find (\<lambda>t. label t = l) (timers s) = Some tm"
    show "label tm = l" using stopTimer_found(5) [OF found] .
    from remove_by_key_one [OF d stopTimer_found(4) [OF found]]
    show "mset (timers s) = add_mset tm (mset (timers (stopTimer now l s)))"
      by (simp add: stopTimer_found(1) [OF found] stopTimer_found(5) [OF found])
  }
  {
    fix h l e assume "map_of (intervals s) h = Some (StartedTick l e) \<and> e - now \<le> 0"
    then have reg: "map_of (intervals s) h = Some (StartedTick l e)" and expired: "e - now \<le> 0"
      by simp_all
    let ?tm = "\<lparr>label = l, endTime = e, timerInterval = h\<rparr>"
    have listed: "?tm \<in> set (timers s)"
      using consistentD(3) [OF c map_of_SomeD [OF reg]] .
    from remove_by_key_one [OF d listed]
    have "mset (timers s) = add_mset ?tm (mset (timers (tick now h s)))"
      by (simp add: tick_def reg startedTick_expired(1) [OF expired])
    then show "\<exists>tm. label tm = l \<and> timerInterval tm = h
        \<and> mset (timers s) = add_mset tm (mset (timers (tick now h s)))"
      by (intro exI [of _ ?tm]) simp
  }
qed

theorem active_labels_pairwise_distinct_witness:
  "distinct (map label (timers (step 0 (StartTimer (Some ''Build'') (Some ''1''))
       (constructor 0 None None))))
   \<and> mset (timers (step 0 (StartTimer (Some ''Build'') (Some ''1'')) (constructor 0 None None)))
     = add_mset \<lparr>label = ''Build'', endTime = 60000, timerInterval = 0\<rparr>
         (mset (timers (stopTimer 5 ''Build''
            (step 0 (StartTimer (Some ''Build'') (Some ''1'')) (constructor 0 None None)))))
   \<and> (\<exists>tm. label tm = ''Build'' \<and> timerInterval tm = 0
        \<and> mset (timers (step 0 (StartTimer (Some ''Build'') (Some ''1'')) (constructor 0 None None)))
          = add_mset tm (mset (timers (tick 60000 0
              (step 0 (StartTimer (Some ''Build'') (Some ''1'')) (constructor 0 None None))))))"
proof -
  let ?S = "step 0 (StartTimer (Some ''Build'') (Some ''1'')) (constructor 0 None None)"
  note claim = active_labels_pairwise_distinct [OF started_Build_reachable]
  have found: "find (\<lambda>t. label t = ''Build'') (timers ?S)
      = Some \<lparr>label = ''Build'', endTime = 60000, timerInterval = 0\<rparr>"
    by (simp add: started_Build)
  have registered: "map_of (intervals ?S) 0 = Some (StartedTick ''Build'' 60000)
      \<and> 60000 - (60000::int) \<le> 0"
    by (simp add: started_Build)
  from claim [of 5] have "distinct (map label (timers ?S))" by (rule conjunct1)
  moreover from claim [of 5, THEN conjunct2, THEN conjunct1, rule_format, OF found]
  have "mset (timers ?S) = add_mset \<lparr>label = ''Build'', endTime = 60000, timerInterval = 0\<rparr>
         (mset (timers (stopTimer 5 ''Build'' ?S)))" by (rule conjunct2)
  moreover note claim [of 60000, THEN conjunct2, THEN conjunct2, rule_format, OF registered]
  ultimately show ?thesis by (intro conjI)
qed

section \<open>Cancellation\<close>

lemma retired_iff: "retired h s \<longleftrightarrow> h < nextHandle s \<and> h \<notin> fst ` set (intervals s)"
  by (simp add: retired_def map_of_eq_None_iff)

lemma retired_views [simp]:
  "retired h (updateStatusBar now s) = retired h s"
  "retired h (updateViews now s) = retired h s"
  "retired h (sendDataToWebview now s) = retired h s"
  "retired h (emit out s) = retired h s"
  by (simp_all add: retired_def)

lemma retired_same:
  assumes "retired h s" "intervals s' = intervals s" "nextHandle s' = nextHandle s"
  shows "retired h s'"
  using assms by (simp add: retired_def)

lemma retired_filter:
  assumes "retired h s" "intervals s' = filter P (intervals s)" "nextHandle s' = nextHandle s"
  shows "retired h s'"
  using assms by (auto simp: retired_iff)

lemma retired_setInterval:
  assumes "retired h s" "intervals s' = intervals s @ [(nextHandle s, cb)]"
    "nextHandle s' = Suc (nextHandle s)"
  shows "retired h s'"
  using assms by (auto simp: retired_iff)

lemma push_retired:
  "retired h s \<Longrightarrow> retired h ((setInterval cb s)\<lparr>timers := ts\<rparr>)"
  by (rule retired_setInterval [where s = s and cb = cb]) simp_all

lemma startTimer_retired: "retired h s \<Longrightarrow> retired h (startTimer now li mi s)"
  by (simp add: startTimer_def Let_def push_retired split: option.splits)

lemma stopTimer_retired: "retired h s \<Longrightarrow> retired h (stopTimer now l s)"
  by (cases "find (\<lambda>t. label t = l) (timers s)")
    (auto intro: retired_same retired_filter simp: stopTimer_found(2,3) stopTimer_not_found(2,3))

lemma clearTimers_retired: "retired h s \<Longrightarrow> retired h (clearTimers now s)"
  by (rule retired_filter [where P = "\<lambda>p. fst p \<notin> timerInterval ` set (timers s)"])
    (simp_all add: clearTimers_def Let_def)

lemma tick_retired: "retired h s \<Longrightarrow> retired h (tick now h' s)"
  by (auto simp: tick_def startedTick_def restoredTick_def Let_def
      split: option.splits callback.splits
      intro: retired_filter [where P = "\<lambda>p. fst p \<noteq> h'"])

lemma task_ops_retired:
  assumes "retired h s"
  shows "retired h (addTask now d s)" "retired h (editTask now i d' s)"
    "retired h (toggleTask now i s)" "retired h (deleteTask now i s)"
  using assms
  by (auto simp: addTask_def editTask_def toggleTask_def deleteTask_def retired_def
      split: option.splits)

lemma step_retired: "retired h s \<Longrightarrow> retired h (step now ev s)"
  by (cases ev)
    (simp_all add: startTimer_retired stopTimer_retired clearTimers_retired tick_retired
      task_ops_retired, simp_all add: retired_def)

lemma run_retired: "retired h s \<Longrightarrow> retired h (run es s)"
  by (induction es s rule: run.induct) (simp_all add: step_retired)

lemma tick_unregistered: "map_of (intervals s) h = None \<Longrightarrow> tick now h s = s"
  by (simp add: tick_def)

lemma stopTimer_retires:
  assumes "consistent s" "t \<in> set (timers s)" "t \<notin> set (timers (stopTimer now l s))"
  shows "retired (timerInterval t) (stopTimer now l s)"
proof (cases "find (\<lambda>t. label t = l) (timers s)")
  case None
  with assms(2,3) show ?thesis by (simp add: stopTimer_not_found(1))
next
  case (Some tm)
  note f = stopTimer_found [OF Some]
  from assms(2,3) have "label t = l"
    by (simp add: f(1))
  with same_label_same_timer [OF consistentD(1) [OF assms(1)] assms(2) f(4)] f(5)
  have "t = tm" by simp
  moreover have "timerInterval tm < nextHandle s"
    using consistentD(4) [OF assms(1) f(4)] .
  ultimately show ?thesis
    by (auto simp: retired_iff f(2,3))
qed

lemma clearTimers_retires:
  assumes "consistent s" "t \<in> set (timers s)"
  shows "retired (timerInterval t) (clearTimers now s)"
proof -
  have "timerInterval t < nextHandle s"
    using consistentD(4) [OF assms] .
  moreover have "intervals (clearTimers now s) =
      filter (\<lambda>p. fst p \<notin> timerInterval ` set (timers s)) (intervals s)"
    by (simp add: clearTimers_def Let_def)
  moreover have "nextHandle (clearTimers now s) = nextHandle s"
    by (simp add: clearTimers_def Let_def)
  ultimately show ?thesis
    using assms(2) by (auto simp: retired_iff)
qed

text \<open>
  Claim C6. In a reachable state, every timer that \<open>stopTimer\<close> removes from the active
  list, and every timer that was active when \<open>clearTimers\<close> ran (which empties the list),
  has its interval deregistered when the call returns; and after any further events no
  callback is registered under its handle, so that firing the handle runs nothing.
\<close>

theorem removed_timer_never_ticks_again:
  assumes "reachable s"
  shows "(\<forall>t \<in> set (timers s). t \<notin> set (timers (stopTimer now l s)) \<longrightarrow>
            (\<forall>es now'. map_of (intervals (run es (stopTimer now l s))) (timerInterval t) = None
                 \<and> tick now' (timerInterval t) (run es (stopTimer now l s))
                     = run es (stopTimer now l s)))
       \<and> timers (clearTimers now s) = []
       \<and> (\<forall>t \<in> set (timers s).
            (\<forall>es now'. map_of (intervals (run es (clearTimers now s))) (timerInterval t) = None
                 \<and> tick now' (timerInterval t) (run es (clearTimers now s))
                     = run es (clearTimers now s)))"
proof (intro conjI ballI impI allI)
  have c: "consistent s" using assms by (rule reachable_consistent)
  {
    fix t es now'
    assume t: "t \<in> set (timers s)" "t \<notin> set (timers (stopTimer now l s))"
    from run_retired [OF stopTimer_retires [OF c t], of es]
    show none: "map_of (intervals (run es (stopTimer now l s))) (timerInterval t) = None"
      by (simp add: retired_def)
    show "tick now' (timerInterval t) (run es (stopTimer now l s)) = run es (stopTimer now l s)"
      using none by (rule tick_unregistered)
  }
  show "timers (clearTimers now s) = []"
    by (simp add: clearTimers_def Let_def)
  {
    fix t es now'
    assume t: "t \<in> set (timers s)"
    from run_retired [OF clearTimers_retires [OF c t], of es]
    show none: "map_of (intervals (run es (clearTimers now s))) (timerInterval t) = None"
      by (simp add: retired_def)
    show "tick now' (timerInterval t) (run es (clearTimers now s)) = run es (clearTimers now s)"
      using none by (rule tick_unregistered)
  }
qed

theorem removed_timer_never_ticks_again_witness:
  "map_of (intervals (run [(10, StartTimer (Some ''Build'') (Some ''2'')), (20, Tick 0)]
       (stopTimer 5 ''Build''
          (step 0 (StartTimer (Some ''Build'') (Some ''1'')) (constructor 0 None None))))) 0 = None
   \<and> tick 30 0 (run [(10, StartTimer (Some ''Build'') (Some ''2'')), (20, Tick 0)]
       (stopTimer 5 ''Build''
          (step 0 (StartTimer (Some ''Build'') (Some ''1'')) (constructor 0 None None))))
     = run [(10, StartTimer (Some ''Build'') (Some ''2'')), (20, Tick 0)]
       (stopTimer 5 ''Build''
          (step 0 (StartTimer (Some ''Build'') (Some ''1'')) (constructor 0 None None)))
   \<and> map_of (intervals (run [(10, StartTimer (Some ''Build'') (Some ''2''))]
       (clearTimers 5
          (step 0 (StartTimer (Some ''Build'') (Some ''1'')) (constructor 0 None None))))) 0 = None"
proof -
  let ?S = "step 0 (StartTimer (Some ''Build'') (Some ''1'')) (constructor 0 None None)"
  let ?t = "\<lparr>label = ''Build'', endTime = 60000, timerInterval = 0\<rparr>"
  note claim = removed_timer_never_ticks_again [OF started_Build_reachable, of 5 "''Build''"]
  have listed: "?t \<in> set (timers ?S)"
    by (simp add: started_Build)
  have "timers (stopTimer 5 ''Build'' ?S) = []"
    by (simp add: started_Build stopTimer_def Let_def)
  then have removed: "?t \<notin> set (timers (stopTimer 5 ''Build'' ?S))"
    by simp
  from claim [THEN conjunct1, rule_format, OF listed removed,
      of "[(10, StartTimer (Some ''Build'') (Some ''2'')), (20, Tick 0)]" 30]
    claim [THEN conjunct2, THEN conjunct2, rule_format, OF listed,
      of "[(10, StartTimer (Some ''Build'') (Some ''2''))]" 30]
  show ?thesis by simp
qed

end
